theory Spec2Isabelle
  imports Main "HOL-Library.Char_ord" "HOL-Library.List_Lexorder"
begin

section \<open>Strings\<close>

text \<open>
  Go strings are byte sequences; \<open>string\<close> is \<open>char list\<close>.  The three functions of
  package \<open>strings\<close> that the sources call are written out for the one-byte separators
  they are called with.
\<close>

text \<open>\<open>strings.Split(s, sep)\<close> for a one-byte \<open>sep\<close>: never empty, \<open>Split("", sep) = [""]\<close>.\<close>

fun strings_Split :: "char \<Rightarrow> string \<Rightarrow> string list" where
  "strings_Split sep [] = [[]]"
| "strings_Split sep (x # xs) =
     (if x = sep then [] # strings_Split sep xs
      else (case strings_Split sep xs of
              [] \<Rightarrow> [[x]]
            | w # ws \<Rightarrow> (x # w) # ws))"

text \<open>\<open>strings.SplitN(s, sep, 2)\<close> for a one-byte \<open>sep\<close>: one cut, at the first separator.\<close>

definition strings_SplitN2 :: "char \<Rightarrow> string \<Rightarrow> string list" where
  "strings_SplitN2 sep s =
     (if sep \<in> set s
      then [takeWhile (\<lambda>c. c \<noteq> sep) s, tl (dropWhile (\<lambda>c. c \<noteq> sep) s)]
      else [s])"

text \<open>\<open>strings.TrimSuffix(s, ".")\<close>.\<close>

definition TrimSuffixDot :: "string \<Rightarrow> string" where
  "TrimSuffixDot s = (if s \<noteq> [] \<and> last s = CHR ''.'' then butlast s else s)"

text \<open>\<open>strings.Replace(s, " ", "", -1)\<close>.\<close>

definition RemoveSpaces :: "string \<Rightarrow> string" where
  "RemoveSpaces s = filter (\<lambda>c. c \<noteq> CHR '' '') s"

section \<open>Errors\<close>

text \<open>
  Every \<open>error\<close> value that a pass can return.  \<open>Wrap\<close> is \<open>errors.Wrap\<close> of
  \<open>github.com/pkg/errors\<close>; the other constructors name where the error is created.
\<close>

datatype error =
    ListError string
  | TTLError string
  | TemplateError string
  | InvalidService string
  | GetError string string
  | Wrap string error

section \<open>The Ambassador service reference\<close>

text \<open>\<open>api.NamespaceDefault\<close> of \<open>k8s.io/kubernetes/pkg/apis/core\<close>.\<close>

definition NamespaceDefault :: string where
  "NamespaceDefault = ''default''"

text \<open>
  \<open>parseAmbLoadBalancerService\<close>: the result is \<open>(namespace, name)\<close>, or the error of an
  ill-formatted reference.
\<close>

definition parseAmbLoadBalancerService :: "string \<Rightarrow> error + (string \<times> string)" where
  "parseAmbLoadBalancerService service =
     (let parts = strings_Split CHR ''/'' service in
      if length parts = 1 then
        (let parts = strings_SplitN2 CHR ''.'' service in
         if length parts = 2 then Inr (parts ! 1, parts ! 0)
         else Inr (NamespaceDefault, service))
      else if length parts = 2 then Inr (parts ! 0, parts ! 1)
      else Inl (InvalidService service))"

section \<open>Endpoints and cluster objects\<close>

text \<open>
  Package \<open>endpoint\<close> is declared outside the files at hand; the fields of
  \<open>endpoint.Endpoint\<close> are the ones the tests of the sources fill in.  \<open>Labels\<close> is a Go
  map, \<open>Targets\<close> a slice of strings, \<open>RecordTTL\<close> an \<open>int64\<close> of seconds.
\<close>

type_synonym annotations = "string \<Rightarrow> string option"

datatype recordType = RecordTypeA | RecordTypeAAAA | RecordTypeCNAME

record Endpoint =
  DNSName :: string
  Targets :: "string list"
  RecordType :: recordType
  SetIdentifier :: string
  RecordTTL :: int
  Labels :: "string \<Rightarrow> string option"
  ProviderSpecific :: "(string \<times> string) list"

text \<open>\<open>metav1.ObjectMeta\<close>, which every resource kind embeds.\<close>

record ObjectMeta =
  Namespace :: string
  Name :: string
  Annotations :: annotations

text \<open>\<open>corev1.LoadBalancerIngress\<close> and \<open>corev1.Service\<close>, as far as the sources read them.\<close>

record LoadBalancerIngress =
  IP :: string
  Hostname :: string

record Service = ObjectMeta +
  svc_Type :: string
  svc_Ingress :: "LoadBalancerIngress list"

text \<open>
  The loop over a load-balancer status that every source holds a copy of:
  the IP of an entry when it is not empty, then its hostname when it is not empty.
\<close>

definition lbTargets :: "LoadBalancerIngress \<Rightarrow> string list" where
  "lbTargets lb =
     (if IP lb \<noteq> [] then [IP lb] else []) @ (if Hostname lb \<noteq> [] then [Hostname lb] else [])"

definition ingressTargets :: "LoadBalancerIngress list \<Rightarrow> string list" where
  "ingressTargets ingress = concat (map lbTargets ingress)"

text \<open>
  Modelled from the spec: the annotation vocabulary and the label keys, constants of
  \<open>source/source.go\<close>, \<open>source/ingress.go\<close> and package \<open>endpoint\<close>, declared outside the
  files at hand.  The specification gives \<open>resource\<close> as the resource label key; the tests of
  the Kong and of the Gloo source spell out the hostname and the TTL key.  The other values
  are the ones of the upstream constants; what is proved uses none of them beyond the keys
  being different from one another.
\<close>

definition controllerAnnotationKey :: string where
  "controllerAnnotationKey = ''external-dns.alpha.kubernetes.io/controller''"

definition controllerAnnotationValue :: string where
  "controllerAnnotationValue = ''dns-controller''"

definition targetAnnotationKey :: string where
  "targetAnnotationKey = ''external-dns.alpha.kubernetes.io/target''"

definition hostnameAnnotationKey :: string where
  "hostnameAnnotationKey = ''external-dns.alpha.kubernetes.io/hostname''"

definition ttlAnnotationKey :: string where
  "ttlAnnotationKey = ''external-dns.alpha.kubernetes.io/ttl''"

definition ALBDualstackAnnotationKey :: string where
  "ALBDualstackAnnotationKey = ''alb.ingress.kubernetes.io/ip-address-type''"

definition ALBDualstackAnnotationValue :: string where
  "ALBDualstackAnnotationValue = ''dualstack''"

definition ResourceLabelKey :: string where
  "ResourceLabelKey = ''resource''"

definition DualstackLabelKey :: string where
  "DualstackLabelKey = ''dualstack''"

text \<open>\<open>ambHostAnnotation\<close>, the annotation of a Host that names its service.\<close>

definition ambHostAnnotation :: string where
  "ambHostAnnotation = ''external-dns.ambassador-service''"

section \<open>The helpers of source.go\<close>

text \<open>
  The five helper functions that every source calls live in \<open>source/source.go\<close>, which is
  not among the files at hand.  The sources are therefore written over a record of them,
  and what is proved for every such record holds whatever the helpers compute.
  \<open>getTTLFromAnnotations\<close> returns the TTL together with its error (\<open>None\<close> for \<open>nil\<close>).
\<close>

record helpers =
  getTTLFromAnnotations :: "annotations \<Rightarrow> int \<times> error option"
  getTargetsFromTargetAnnotation :: "annotations \<Rightarrow> string list"
  getProviderSpecificAnnotations :: "annotations \<Rightarrow> (string \<times> string) list \<times> string"
  getHostnamesFromAnnotations :: "annotations \<Rightarrow> string list"
  endpointsForHostname ::
    "string \<Rightarrow> string list \<Rightarrow> int \<Rightarrow> (string \<times> string) list \<Rightarrow> string \<Rightarrow> Endpoint list"

text \<open>
  The skeleton of every \<open>Endpoints\<close> method: the resources are visited in order, the
  endpoints of each are appended to the accumulator, and the first error ends the pass.
  A \<open>continue\<close> of the source is a resource that contributes \<open>Inr []\<close>.
\<close>

fun collect :: "('r \<Rightarrow> error + Endpoint list) \<Rightarrow> 'r list \<Rightarrow> Endpoint list \<Rightarrow> error + Endpoint list" where
  "collect body [] endpoints = Inr endpoints"
| "collect body (r # rs) endpoints =
     (case body r of
        Inl err \<Rightarrow> Inl err
      | Inr eps \<Rightarrow> collect body rs (endpoints @ eps))"

text \<open>
  \<open>sort.Sort(ep.Targets)\<close>: \<open>endpoint.Targets\<close> orders strings bytewise, which is the
  lexicographic order of \<open>char list\<close>; a sorted list of strings is determined by its
  elements, so the unstable \<open>sort.Sort\<close> and \<open>sort\<close> agree.
\<close>

definition sortTargets :: "Endpoint \<Rightarrow> Endpoint" where
  "sortTargets ep = ep\<lparr>Targets := sort (Targets ep)\<rparr>"

section \<open>The Contour HTTPProxy source\<close>

text \<open>
  \<open>hp_VirtualHost\<close> is \<open>Spec.VirtualHost\<close>: \<open>None\<close> for the nil pointer, else the
  \<open>Fqdn\<close> of the virtual host.  \<open>hp_CurrentStatus\<close> is \<open>Status.CurrentStatus\<close> and
  \<open>hp_Ingress\<close> is \<open>Status.LoadBalancer.Ingress\<close>.
\<close>

record HTTPProxy = ObjectMeta +
  hp_VirtualHost :: "string option"
  hp_CurrentStatus :: string
  hp_Ingress :: "LoadBalancerIngress list"

text \<open>
  The lister of the informer maps a namespace to the resources of the snapshot or to an
  error.  A parsed template is the function that executes it on a resource; \<open>None\<close> is the
  nil template.  The annotation selector is the predicate \<open>Matches\<close>.
\<close>

record httpProxySource =
  hp_httpProxyInformer :: "string \<Rightarrow> error + HTTPProxy list"
  hp_namespace :: string
  hp_fqdnTemplate :: "(HTTPProxy \<Rightarrow> error + string) option"
  hp_annotationSelector :: "annotations \<Rightarrow> bool"
  hp_combineFQDNAnnotation :: bool
  hp_ignoreHostnameAnnotation :: bool

text \<open>
  The targets of an HTTPProxy, as \<open>endpointsFromHTTPProxy\<close> (lines 204 to 215) and
  \<open>endpointsFromTemplate\<close> (lines 158 to 169) both compute them.
\<close>

definition hp_targets :: "helpers \<Rightarrow> HTTPProxy \<Rightarrow> string list" where
  "hp_targets H httpProxy =
     (let targets = getTargetsFromTargetAnnotation H (Annotations httpProxy) in
      if length targets = 0 then ingressTargets (hp_Ingress httpProxy) else targets)"

text \<open>
  \<open>endpointsFromTemplate\<close>, given the non-nil template.  The error of the TTL is logged
  and dropped.
\<close>

definition hp_endpointsFromTemplate ::
  "helpers \<Rightarrow> (HTTPProxy \<Rightarrow> error + string) \<Rightarrow> HTTPProxy \<Rightarrow> error + Endpoint list" where
  "hp_endpointsFromTemplate H tmpl httpProxy =
     (case tmpl httpProxy of
        Inl err \<Rightarrow> Inl (Wrap ''failed to apply template on HTTPProxy'' err)
      | Inr hostnames \<Rightarrow>
          (let ttl = fst (getTTLFromAnnotations H (Annotations httpProxy));
               targets = hp_targets H httpProxy;
               providerSpecific = fst (getProviderSpecificAnnotations H (Annotations httpProxy));
               setIdentifier = snd (getProviderSpecificAnnotations H (Annotations httpProxy));
               hostnameList = strings_Split CHR '','' (RemoveSpaces hostnames)
           in Inr (concat (map (\<lambda>hostname.
                  endpointsForHostname H (TrimSuffixDot hostname) targets ttl providerSpecific setIdentifier)
                hostnameList))))"

definition hp_setResourceLabel :: "HTTPProxy \<Rightarrow> Endpoint list \<Rightarrow> Endpoint list" where
  "hp_setResourceLabel httpProxy endpoints =
     map (\<lambda>ep. ep\<lparr>Labels := (Labels ep)(ResourceLabelKey \<mapsto>
            ''HTTPProxy/'' @ Namespace httpProxy @ ''/'' @ Name httpProxy)\<rparr>) endpoints"

text \<open>\<open>endpointsFromHTTPProxy\<close>: its error is always nil.\<close>

definition hp_endpointsFromHTTPProxy ::
  "helpers \<Rightarrow> httpProxySource \<Rightarrow> HTTPProxy \<Rightarrow> error + Endpoint list" where
  "hp_endpointsFromHTTPProxy H sc httpProxy =
     (if hp_CurrentStatus httpProxy \<noteq> ''valid'' then Inr []
      else
        (let ttl = fst (getTTLFromAnnotations H (Annotations httpProxy));
             targets = hp_targets H httpProxy;
             providerSpecific = fst (getProviderSpecificAnnotations H (Annotations httpProxy));
             setIdentifier = snd (getProviderSpecificAnnotations H (Annotations httpProxy));
             fromFqdn =
               (case hp_VirtualHost httpProxy of
                  None \<Rightarrow> []
                | Some fqdn \<Rightarrow>
                    if fqdn \<noteq> [] then endpointsForHostname H fqdn targets ttl providerSpecific setIdentifier
                    else []);
             fromAnnotations =
               (if \<not> hp_ignoreHostnameAnnotation sc
                then concat (map (\<lambda>hostname.
                       endpointsForHostname H hostname targets ttl providerSpecific setIdentifier)
                     (getHostnamesFromAnnotations H (Annotations httpProxy)))
                else [])
         in Inr (fromFqdn @ fromAnnotations)))"

text \<open>
  Lines 110 to 126 of \<open>Endpoints\<close>: the endpoints of the resource, then the template when
  it is combined or when there are none.
\<close>

definition hp_withTemplate :: "helpers \<Rightarrow> httpProxySource \<Rightarrow> HTTPProxy \<Rightarrow> error + Endpoint list" where
  "hp_withTemplate H sc hp =
     (case hp_endpointsFromHTTPProxy H sc hp of
        Inl err \<Rightarrow> Inl (Wrap ''failed to get endpoints from HTTPProxy'' err)
      | Inr eps \<Rightarrow>
          (case hp_fqdnTemplate sc of
             None \<Rightarrow> Inr eps
           | Some tmpl \<Rightarrow>
               if hp_combineFQDNAnnotation sc \<or> length eps = 0 then
                 (case hp_endpointsFromTemplate H tmpl hp of
                    Inl err \<Rightarrow> Inl (Wrap ''failed to get endpoints from template'' err)
                  | Inr tmplEndpoints \<Rightarrow>
                      Inr (if hp_combineFQDNAnnotation sc then eps @ tmplEndpoints else tmplEndpoints))
               else Inr eps))"

text \<open>The body of the loop of \<open>Endpoints\<close>: what one HTTPProxy adds to the batch.\<close>

definition hp_resourceEndpoints :: "helpers \<Rightarrow> httpProxySource \<Rightarrow> HTTPProxy \<Rightarrow> error + Endpoint list" where
  "hp_resourceEndpoints H sc hp =
     (if \<not> hp_annotationSelector sc (Annotations hp) then Inr []
      else if (case Annotations hp controllerAnnotationKey of
                 None \<Rightarrow> False
               | Some controller \<Rightarrow> controller \<noteq> controllerAnnotationValue) then Inr []
      else if hp_CurrentStatus hp \<noteq> ''valid'' then Inr []
      else
        (case hp_withTemplate H sc hp of
           Inl err \<Rightarrow> Inl err
         | Inr eps \<Rightarrow> if length eps = 0 then Inr [] else Inr (hp_setResourceLabel hp eps)))"

definition hp_Endpoints :: "helpers \<Rightarrow> httpProxySource \<Rightarrow> error + Endpoint list" where
  "hp_Endpoints H sc =
     (case hp_httpProxyInformer sc (hp_namespace sc) of
        Inl err \<Rightarrow> Inl err
      | Inr httpProxies \<Rightarrow>
          (case collect (hp_resourceEndpoints H sc) httpProxies [] of
             Inl err \<Rightarrow> Inl err
           | Inr endpoints \<Rightarrow> Inr (map sortTargets endpoints)))"

section \<open>The Contour IngressRoute source\<close>

text \<open>\<open>ir_CurrentStatus\<close> is the \<open>CurrentStatus\<close> of the embedded status.\<close>

record IngressRoute = ObjectMeta +
  ir_VirtualHost :: "string option"
  ir_CurrentStatus :: string

text \<open>
  The service lister maps a namespace and a name to the service of the snapshot or to an
  error; \<open>ir_lbService\<close> is the configured \<open>(namespace, name)\<close>.
\<close>

record ingressRouteSource =
  ir_serviceInformer :: "string \<Rightarrow> string \<Rightarrow> error + Service"
  ir_ingressRouteInformer :: "string \<Rightarrow> error + IngressRoute list"
  ir_namespace :: string
  ir_lbService :: "string \<times> string"
  ir_fqdnTemplate :: "(IngressRoute \<Rightarrow> error + string) option"
  ir_annotationSelector :: "annotations \<Rightarrow> bool"
  ir_combineFQDNAnnotation :: bool
  ir_ignoreHostnameAnnotation :: bool

text \<open>\<open>targetsFromContourLoadBalancer\<close>: a failed lookup is logged, not returned.\<close>

definition targetsFromContourLoadBalancer :: "ingressRouteSource \<Rightarrow> error + string list" where
  "targetsFromContourLoadBalancer sc =
     (case ir_serviceInformer sc (fst (ir_lbService sc)) (snd (ir_lbService sc)) of
        Inl err \<Rightarrow> Inr []
      | Inr svc \<Rightarrow> Inr (ingressTargets (svc_Ingress svc)))"

text \<open>
  The targets of an IngressRoute, as \<open>endpointsFromIngressRoute\<close> (lines 250 to 257) and
  \<open>endpointsFromTemplate\<close> (lines 194 to 201) both compute them.
\<close>

definition ir_targets :: "helpers \<Rightarrow> ingressRouteSource \<Rightarrow> IngressRoute \<Rightarrow> error + string list" where
  "ir_targets H sc route =
     (let targets = getTargetsFromTargetAnnotation H (Annotations route) in
      if length targets = 0 then targetsFromContourLoadBalancer sc else Inr targets)"

definition ir_endpointsFromTemplate ::
  "helpers \<Rightarrow> ingressRouteSource \<Rightarrow> (IngressRoute \<Rightarrow> error + string) \<Rightarrow> IngressRoute
     \<Rightarrow> error + Endpoint list" where
  "ir_endpointsFromTemplate H sc tmpl ingressRoute =
     (case tmpl ingressRoute of
        Inl err \<Rightarrow> Inl (Wrap ''failed to apply template on ingressroute'' err)
      | Inr hostnames \<Rightarrow>
          (case ir_targets H sc ingressRoute of
             Inl err \<Rightarrow> Inl err
           | Inr targets \<Rightarrow>
               (let ttl = fst (getTTLFromAnnotations H (Annotations ingressRoute));
                    providerSpecific = fst (getProviderSpecificAnnotations H (Annotations ingressRoute));
                    setIdentifier = snd (getProviderSpecificAnnotations H (Annotations ingressRoute));
                    hostnameList = strings_Split CHR '','' (RemoveSpaces hostnames)
                in Inr (concat (map (\<lambda>hostname.
                       endpointsForHostname H (TrimSuffixDot hostname) targets ttl providerSpecific setIdentifier)
                     hostnameList)))))"

definition ir_setResourceLabel :: "IngressRoute \<Rightarrow> Endpoint list \<Rightarrow> Endpoint list" where
  "ir_setResourceLabel ingressRoute endpoints =
     map (\<lambda>ep. ep\<lparr>Labels := (Labels ep)(ResourceLabelKey \<mapsto>
            ''ingressroute/'' @ Namespace ingressRoute @ ''/'' @ Name ingressRoute)\<rparr>) endpoints"

definition endpointsFromIngressRoute ::
  "helpers \<Rightarrow> ingressRouteSource \<Rightarrow> IngressRoute \<Rightarrow> error + Endpoint list" where
  "endpointsFromIngressRoute H sc route =
     (if ir_CurrentStatus route \<noteq> ''valid'' then Inr []
      else
        (case ir_targets H sc route of
           Inl err \<Rightarrow> Inl err
         | Inr targets \<Rightarrow>
             (let ttl = fst (getTTLFromAnnotations H (Annotations route));
                  providerSpecific = fst (getProviderSpecificAnnotations H (Annotations route));
                  setIdentifier = snd (getProviderSpecificAnnotations H (Annotations route));
                  fromFqdn =
                    (case ir_VirtualHost route of
                       None \<Rightarrow> []
                     | Some fqdn \<Rightarrow>
                         if fqdn \<noteq> [] then endpointsForHostname H fqdn targets ttl providerSpecific setIdentifier
                         else []);
                  fromAnnotations =
                    (if \<not> ir_ignoreHostnameAnnotation sc
                     then concat (map (\<lambda>hostname.
                            endpointsForHostname H hostname targets ttl providerSpecific setIdentifier)
                          (getHostnamesFromAnnotations H (Annotations route)))
                     else [])
              in Inr (fromFqdn @ fromAnnotations))))"

text \<open>Lines 147 to 159 of \<open>Endpoints\<close>.\<close>

definition ir_withTemplate :: "helpers \<Rightarrow> ingressRouteSource \<Rightarrow> IngressRoute \<Rightarrow> error + Endpoint list" where
  "ir_withTemplate H sc rt =
     (case endpointsFromIngressRoute H sc rt of
        Inl err \<Rightarrow> Inl err
      | Inr eps \<Rightarrow>
          (case ir_fqdnTemplate sc of
             None \<Rightarrow> Inr eps
           | Some tmpl \<Rightarrow>
               if ir_combineFQDNAnnotation sc \<or> length eps = 0 then
                 (case ir_endpointsFromTemplate H sc tmpl rt of
                    Inl err \<Rightarrow> Inl err
                  | Inr tmplEndpoints \<Rightarrow>
                      Inr (if ir_combineFQDNAnnotation sc then eps @ tmplEndpoints else tmplEndpoints))
               else Inr eps))"

definition ir_resourceEndpoints :: "helpers \<Rightarrow> ingressRouteSource \<Rightarrow> IngressRoute \<Rightarrow> error + Endpoint list" where
  "ir_resourceEndpoints H sc rt =
     (if \<not> ir_annotationSelector sc (Annotations rt) then Inr []
      else if (case Annotations rt controllerAnnotationKey of
                 None \<Rightarrow> False
               | Some controller \<Rightarrow> controller \<noteq> controllerAnnotationValue) then Inr []
      else if ir_CurrentStatus rt \<noteq> ''valid'' then Inr []
      else
        (case ir_withTemplate H sc rt of
           Inl err \<Rightarrow> Inl err
         | Inr eps \<Rightarrow> if length eps = 0 then Inr [] else Inr (ir_setResourceLabel rt eps)))"

definition ir_Endpoints :: "helpers \<Rightarrow> ingressRouteSource \<Rightarrow> error + Endpoint list" where
  "ir_Endpoints H sc =
     (case ir_ingressRouteInformer sc (ir_namespace sc) of
        Inl err \<Rightarrow> Inl err
      | Inr routes \<Rightarrow>
          (case collect (ir_resourceEndpoints H sc) routes [] of
             Inl err \<Rightarrow> Inl err
           | Inr endpoints \<Rightarrow> Inr (map sortTargets endpoints)))"

section \<open>The Kong TCPIngress source\<close>

record IngressRule =
  Port :: int
  Host :: string

text \<open>\<open>ti_Rules\<close> is \<open>Spec.Rules\<close> and \<open>ti_Ingress\<close> is \<open>Status.LoadBalancer.Ingress\<close>.\<close>

record TCPIngress = ObjectMeta +
  ti_Rules :: "IngressRule list"
  ti_Ingress :: "LoadBalancerIngress list"

record kongTCPIngressSource =
  kong_tcpIngressInformer :: "string \<Rightarrow> error + TCPIngress list"
  kong_namespace :: string
  kong_annotationSelector :: "annotations \<Rightarrow> bool"

definition kong_setResourceLabel :: "TCPIngress \<Rightarrow> Endpoint list \<Rightarrow> Endpoint list" where
  "kong_setResourceLabel tcpIngress endpoints =
     map (\<lambda>ep. ep\<lparr>Labels := (Labels ep)(ResourceLabelKey \<mapsto>
            ''tcpingress/'' @ Namespace tcpIngress @ ''/'' @ Name tcpIngress)\<rparr>) endpoints"

definition setDualstackLabel :: "TCPIngress \<Rightarrow> Endpoint list \<Rightarrow> Endpoint list" where
  "setDualstackLabel tcpIngress endpoints =
     (case Annotations tcpIngress ALBDualstackAnnotationKey of
        None \<Rightarrow> endpoints
      | Some val \<Rightarrow>
          if val = ALBDualstackAnnotationValue
          then map (\<lambda>ep. ep\<lparr>Labels := (Labels ep)(DualstackLabelKey \<mapsto> ''true'')\<rparr>) endpoints
          else endpoints)"

text \<open>\<open>endpointsFromTCPIngress\<close>: the error of the TTL is returned.\<close>

definition endpointsFromTCPIngress ::
  "helpers \<Rightarrow> TCPIngress \<Rightarrow> string list \<Rightarrow> error + Endpoint list" where
  "endpointsFromTCPIngress H tcpIngress targets =
     (case snd (getTTLFromAnnotations H (Annotations tcpIngress)) of
        Some err \<Rightarrow> Inl err
      | None \<Rightarrow>
          (let ttl = fst (getTTLFromAnnotations H (Annotations tcpIngress));
               providerSpecific = fst (getProviderSpecificAnnotations H (Annotations tcpIngress));
               setIdentifier = snd (getProviderSpecificAnnotations H (Annotations tcpIngress));
               fromAnnotations =
                 concat (map (\<lambda>hostname.
                     endpointsForHostname H hostname targets ttl providerSpecific setIdentifier)
                   (getHostnamesFromAnnotations H (Annotations tcpIngress)));
               fromRules =
                 concat (map (\<lambda>rule.
                     if Host rule \<noteq> []
                     then endpointsForHostname H (Host rule) targets ttl providerSpecific setIdentifier
                     else [])
                   (ti_Rules tcpIngress))
           in Inr (fromAnnotations @ fromRules)))"

definition kong_resourceEndpoints ::
  "helpers \<Rightarrow> kongTCPIngressSource \<Rightarrow> TCPIngress \<Rightarrow> error + Endpoint list" where
  "kong_resourceEndpoints H sc ti =
     (if \<not> kong_annotationSelector sc (Annotations ti) then Inr []
      else
        (case endpointsFromTCPIngress H ti (ingressTargets (ti_Ingress ti)) of
           Inl err \<Rightarrow> Inl err
         | Inr eps \<Rightarrow>
             if length eps = 0 then Inr []
             else Inr (setDualstackLabel ti (kong_setResourceLabel ti eps))))"

definition kong_Endpoints :: "helpers \<Rightarrow> kongTCPIngressSource \<Rightarrow> error + Endpoint list" where
  "kong_Endpoints H sc =
     (case kong_tcpIngressInformer sc (kong_namespace sc) of
        Inl err \<Rightarrow> Inl err
      | Inr tcpIngresses \<Rightarrow>
          (case collect (kong_resourceEndpoints H sc) tcpIngresses [] of
             Inl err \<Rightarrow> Inl err
           | Inr endpoints \<Rightarrow> Inr (map sortTargets endpoints)))"

section \<open>The Ambassador Host source\<close>

text \<open>\<open>host_Spec\<close> is \<open>Spec\<close>: \<open>None\<close> for the nil pointer, else its \<open>Hostname\<close>.\<close>

record Host = ObjectMeta +
  host_Spec :: "string option"

text \<open>
  The Ambassador source asks the API server for a service through \<open>kubeClient\<close>.  The
  requests of a pass are recorded next to its result, as the list of the
  \<open>(namespace, name)\<close> pairs asked for, in order.
\<close>

type_synonym calls = "(string \<times> string) list"

record ambassadorHostSource =
  amb_kubeClient :: "string \<Rightarrow> string \<Rightarrow> error + Service"
  amb_hostInformer :: "string \<Rightarrow> error + Host list"
  amb_namespace :: string

text \<open>\<open>endpointsFromHost\<close>: the error of the TTL is returned.\<close>

definition endpointsFromHost :: "helpers \<Rightarrow> Host \<Rightarrow> string list \<Rightarrow> error + Endpoint list" where
  "endpointsFromHost H host targets =
     (case snd (getTTLFromAnnotations H (Annotations host)) of
        Some err \<Rightarrow> Inl err
      | None \<Rightarrow>
          (case host_Spec host of
             None \<Rightarrow> Inr []
           | Some hostname \<Rightarrow>
               if hostname \<noteq> []
               then Inr (endpointsForHostname H hostname targets
                      (fst (getTTLFromAnnotations H (Annotations host))) [] [])
               else Inr []))"

text \<open>\<open>targetsFromAmbassadorLoadBalancer\<close>: the error of the request is returned.\<close>

definition targetsFromAmbassadorLoadBalancer ::
  "ambassadorHostSource \<Rightarrow> string \<Rightarrow> (error + string list) \<times> calls" where
  "targetsFromAmbassadorLoadBalancer sc service =
     (case parseAmbLoadBalancerService service of
        Inl err \<Rightarrow> (Inl err, [])
      | Inr (lbNamespace, lbName) \<Rightarrow>
          (case amb_kubeClient sc lbNamespace lbName of
             Inl err \<Rightarrow> (Inl err, [(lbNamespace, lbName)])
           | Inr svc \<Rightarrow> (Inr (ingressTargets (svc_Ingress svc)), [(lbNamespace, lbName)])))"

definition amb_resourceEndpoints ::
  "helpers \<Rightarrow> ambassadorHostSource \<Rightarrow> Host \<Rightarrow> (error + Endpoint list) \<times> calls" where
  "amb_resourceEndpoints H sc host =
     (case Annotations host ambHostAnnotation of
        None \<Rightarrow> (Inr [], [])
      | Some service \<Rightarrow>
          (case targetsFromAmbassadorLoadBalancer sc service of
             (Inl err, cs) \<Rightarrow> (Inl err, cs)
           | (Inr targets, cs) \<Rightarrow> (endpointsFromHost H host targets, cs)))"

text \<open>The loop of \<open>Endpoints\<close>, with the record of the requests made so far.\<close>

fun collectCalls ::
  "('r \<Rightarrow> (error + Endpoint list) \<times> calls) \<Rightarrow> 'r list \<Rightarrow> Endpoint list \<Rightarrow> calls
     \<Rightarrow> (error + Endpoint list) \<times> calls" where
  "collectCalls body [] endpoints cs = (Inr endpoints, cs)"
| "collectCalls body (r # rs) endpoints cs =
     (case body r of
        (Inl err, cs') \<Rightarrow> (Inl err, cs @ cs')
      | (Inr eps, cs') \<Rightarrow> collectCalls body rs (endpoints @ eps) (cs @ cs'))"

definition amb_Endpoints ::
  "helpers \<Rightarrow> ambassadorHostSource \<Rightarrow> (error + Endpoint list) \<times> calls" where
  "amb_Endpoints H sc =
     (case amb_hostInformer sc (amb_namespace sc) of
        Inl err \<Rightarrow> (Inl err, [])
      | Inr hosts \<Rightarrow>
          (case collectCalls (amb_resourceEndpoints H sc) hosts [] [] of
             (Inl err, cs) \<Rightarrow> (Inl err, cs)
           | (Inr endpoints, cs) \<Rightarrow> (Inr (map sortTargets endpoints), cs)))"

section \<open>The Gloo Proxy source\<close>

record VirtualHostMetadataSource =
  Kind :: string
  src_Name :: string
  src_Namespace :: string

text \<open>\<open>Metadata_Source\<close> is \<open>Metadata.Source\<close>.\<close>

record VirtualHost =
  Domains :: "string list"
  Metadata_Source :: "VirtualHostMetadataSource list"

text \<open>
  \<open>Listeners\<close> is \<open>Spec.Listeners\<close>, each listener being the virtual hosts of its
  \<open>HTTPListener\<close>; \<open>Status_State\<close> is \<open>Status.State\<close>, which no method of the source reads.
\<close>

record Proxy = ObjectMeta +
  Listeners :: "VirtualHost list list"
  Status_State :: string

text \<open>A \<open>VirtualService\<close> is read for its annotations only.\<close>

record glooSource =
  gloo_kubeClient :: "string \<Rightarrow> string \<Rightarrow> error + Service"
  gloo_glooClient :: "string \<Rightarrow> string \<Rightarrow> error + ObjectMeta"
  gloo_proxyInformer :: "string \<Rightarrow> error + Proxy list"
  gloo_namespace :: string

text \<open>The loop of \<open>annotationsFromVirtualHost\<close> over the metadata sources of a virtual host.\<close>

fun annotationsFromSources ::
  "glooSource \<Rightarrow> VirtualHostMetadataSource list \<Rightarrow> annotations \<Rightarrow> error + annotations" where
  "annotationsFromSources gs [] annotations = Inr annotations"
| "annotationsFromSources gs (src # rest) annotations =
     (if Kind src = ''*v1.VirtualService'' then
        (case gloo_glooClient gs (src_Namespace src) (src_Name src) of
           Inl err \<Rightarrow> Inl err
         | Inr svc \<Rightarrow> annotationsFromSources gs rest (annotations ++ Annotations svc))
      else annotationsFromSources gs rest annotations)"

definition annotationsFromVirtualHost :: "glooSource \<Rightarrow> VirtualHost \<Rightarrow> error + annotations" where
  "annotationsFromVirtualHost gs vhost = annotationsFromSources gs (Metadata_Source vhost) Map.empty"

text \<open>The body of the inner loop of \<open>endpointsFromProxy\<close>: the endpoints of one virtual host.\<close>

definition gloo_vhostEndpoints ::
  "helpers \<Rightarrow> glooSource \<Rightarrow> string list \<Rightarrow> VirtualHost \<Rightarrow> error + Endpoint list" where
  "gloo_vhostEndpoints H gs targets vhost =
     (case annotationsFromVirtualHost gs vhost of
        Inl err \<Rightarrow> Inl err
      | Inr annotations \<Rightarrow>
          (case snd (getTTLFromAnnotations H annotations) of
             Some err \<Rightarrow> Inl err
           | None \<Rightarrow>
               (let ttl = fst (getTTLFromAnnotations H annotations);
                    providerSpecific = fst (getProviderSpecificAnnotations H annotations);
                    setIdentifier = snd (getProviderSpecificAnnotations H annotations)
                in Inr (concat (map (\<lambda>domain.
                       endpointsForHostname H (TrimSuffixDot domain) targets ttl providerSpecific setIdentifier)
                     (Domains vhost))))))"

text \<open>
  \<open>endpointsFromProxy\<close>: the virtual hosts of all listeners, in order, the first error
  ending both loops.
\<close>

definition endpointsFromProxy ::
  "helpers \<Rightarrow> glooSource \<Rightarrow> Proxy \<Rightarrow> string list \<Rightarrow> error + Endpoint list" where
  "endpointsFromProxy H gs proxy targets =
     collect (gloo_vhostEndpoints H gs targets) (concat (Listeners proxy)) []"

text \<open>\<open>corev1.ServiceTypeLoadBalancer\<close> is the string \<open>LoadBalancer\<close>.\<close>

definition proxyTargets :: "glooSource \<Rightarrow> string \<Rightarrow> error + string list" where
  "proxyTargets gs name =
     (case gloo_kubeClient gs (gloo_namespace gs) name of
        Inl err \<Rightarrow> Inl err
      | Inr svc \<Rightarrow>
          if svc_Type svc = ''LoadBalancer'' then Inr (ingressTargets (svc_Ingress svc))
          else Inr [])"

definition gloo_resourceEndpoints :: "helpers \<Rightarrow> glooSource \<Rightarrow> Proxy \<Rightarrow> error + Endpoint list" where
  "gloo_resourceEndpoints H gs p =
     (case proxyTargets gs (Name p) of
        Inl err \<Rightarrow> Inl err
      | Inr targets \<Rightarrow> endpointsFromProxy H gs p targets)"

text \<open>\<open>Endpoints\<close> of the Gloo source: no label is set and no target list is sorted.\<close>

definition gloo_Endpoints :: "helpers \<Rightarrow> glooSource \<Rightarrow> error + Endpoint list" where
  "gloo_Endpoints H gs =
     (case gloo_proxyInformer gs (gloo_namespace gs) of
        Inl err \<Rightarrow> Inl err
      | Inr proxies \<Rightarrow> collect (gloo_resourceEndpoints H gs) proxies [])"

section \<open>The helpers, as the specification describes them\<close>

text \<open>
  Modelled from the spec: \<open>getTTLFromAnnotations\<close> of \<open>source/source.go\<close>.  The TTL is
  the parsed value of the TTL annotation; a missing annotation gives 0 and no error, an
  unparseable one gives 0 and an error for the caller to log or to return.  The parser
  of the value (integer seconds or a duration string) is a parameter.
\<close>

definition spec_getTTLFromAnnotations ::
  "(string \<Rightarrow> int option) \<Rightarrow> annotations \<Rightarrow> int \<times> error option" where
  "spec_getTTLFromAnnotations parseTTL annotations =
     (case annotations ttlAnnotationKey of
        None \<Rightarrow> (0, None)
      | Some ttlAnnotation \<Rightarrow>
          (case parseTTL ttlAnnotation of
             None \<Rightarrow> (0, Some (TTLError ttlAnnotation))
           | Some ttlValue \<Rightarrow> (ttlValue, None)))"

text \<open>
  Modelled from the spec: \<open>getTargetsFromTargetAnnotation\<close> of \<open>source/source.go\<close>.  The
  value of the target annotation is split at its commas and the pieces are used as they
  are; a missing annotation gives no target, and so does an empty one (the test
  ``httpproxy with empty annotation'').
\<close>

definition spec_getTargetsFromTargetAnnotation :: "annotations \<Rightarrow> string list" where
  "spec_getTargetsFromTargetAnnotation annotations =
     (case annotations targetAnnotationKey of
        None \<Rightarrow> []
      | Some targetAnnotation \<Rightarrow>
          if targetAnnotation \<noteq> [] then strings_Split CHR '','' targetAnnotation else [])"

text \<open>
  Modelled from the spec: \<open>getHostnamesFromAnnotations\<close> of \<open>source/source.go\<close>.  The
  value of the hostname annotation is split and trimmed the way the output of a template
  is, and the trailing dot of each piece is stripped.
\<close>

definition spec_getHostnamesFromAnnotations :: "annotations \<Rightarrow> string list" where
  "spec_getHostnamesFromAnnotations annotations =
     (case annotations hostnameAnnotationKey of
        None \<Rightarrow> []
      | Some hostnameAnnotation \<Rightarrow>
          map TrimSuffixDot (strings_Split CHR '','' (RemoveSpaces hostnameAnnotation)))"

text \<open>
  Modelled from the spec: \<open>getProviderSpecificAnnotations\<close> of \<open>source/source.go\<close>.  The
  set identifier is the value of its annotation, empty when absent; the conversion of
  the provider-specific annotations is a parameter.
\<close>

definition setIdentifierKey :: string where
  "setIdentifierKey = ''external-dns.alpha.kubernetes.io/set-identifier''"

definition spec_getProviderSpecificAnnotations ::
  "(annotations \<Rightarrow> (string \<times> string) list) \<Rightarrow> annotations \<Rightarrow> (string \<times> string) list \<times> string" where
  "spec_getProviderSpecificAnnotations providerSpecific annotations =
     (providerSpecific annotations,
      (case annotations setIdentifierKey of None \<Rightarrow> [] | Some v \<Rightarrow> v))"

text \<open>
  Modelled from the spec: the record type of a target list, \<open>A\<close> or \<open>AAAA\<close> when its
  elements parse as IP literals and \<open>CNAME\<close> when they do not.  The parser of IP literals
  is a parameter.  A list that mixes kinds is outside the invariant of the specification;
  it is given \<open>CNAME\<close> as soon as one element is no IP literal.
\<close>

datatype ipFamily = IPv4 | IPv6

definition inferRecordType :: "(string \<Rightarrow> ipFamily option) \<Rightarrow> string list \<Rightarrow> recordType" where
  "inferRecordType parseIP targets =
     (if list_all (\<lambda>t. parseIP t = Some IPv4) targets then RecordTypeA
      else if list_all (\<lambda>t. parseIP t \<noteq> None) targets then RecordTypeAAAA
      else RecordTypeCNAME)"

text \<open>
  Modelled from the spec: \<open>endpointsForHostname\<close> of \<open>source/source.go\<close>.  One endpoint
  for the hostname, carrying the full target list and the shared metadata, with an empty
  label map; none when the target list is empty.
\<close>

definition spec_endpointsForHostname ::
  "(string \<Rightarrow> ipFamily option) \<Rightarrow> string \<Rightarrow> string list \<Rightarrow> int \<Rightarrow> (string \<times> string) list \<Rightarrow> string
     \<Rightarrow> Endpoint list" where
  "spec_endpointsForHostname parseIP hostname targets ttl providerSpecific setIdentifier =
     (if targets = [] then []
      else [\<lparr>DNSName = TrimSuffixDot hostname,
             Targets = targets,
             RecordType = inferRecordType parseIP targets,
             SetIdentifier = setIdentifier,
             RecordTTL = ttl,
             Labels = Map.empty,
             ProviderSpecific = providerSpecific\<rparr>])"

definition specHelpers ::
  "(string \<Rightarrow> int option) \<Rightarrow> (string \<Rightarrow> ipFamily option) \<Rightarrow> (annotations \<Rightarrow> (string \<times> string) list)
     \<Rightarrow> helpers" where
  "specHelpers parseTTL parseIP providerSpecific =
     \<lparr>getTTLFromAnnotations = spec_getTTLFromAnnotations parseTTL,
      getTargetsFromTargetAnnotation = spec_getTargetsFromTargetAnnotation,
      getProviderSpecificAnnotations = spec_getProviderSpecificAnnotations providerSpecific,
      getHostnamesFromAnnotations = spec_getHostnamesFromAnnotations,
      endpointsForHostname = spec_endpointsForHostname parseIP\<rparr>"

text \<open>
  Instances of the three parameters for the evaluations below: whole numbers of seconds
  in decimal, dotted-quad IPv4 literals, and no provider-specific annotation.
\<close>

definition isDigit :: "char \<Rightarrow> bool" where
  "isDigit c = (CHR ''0'' \<le> c \<and> c \<le> CHR ''9'')"

definition decimalValue :: "string \<Rightarrow> nat" where
  "decimalValue s = foldl (\<lambda>n c. 10 * n + (of_char c - 48)) 0 s"

definition decimalSeconds :: "string \<Rightarrow> int option" where
  "decimalSeconds s = (if s \<noteq> [] \<and> list_all isDigit s then Some (int (decimalValue s)) else None)"

definition isOctet :: "string \<Rightarrow> bool" where
  "isOctet s = (s \<noteq> [] \<and> length s \<le> 3 \<and> list_all isDigit s \<and> decimalValue s \<le> 255)"

definition dottedQuad :: "string \<Rightarrow> ipFamily option" where
  "dottedQuad s =
     (let parts = strings_Split CHR ''.'' s in
      if length parts = 4 \<and> list_all isOctet parts then Some IPv4 else None)"

definition exampleHelpers :: helpers where
  "exampleHelpers = specHelpers decimalSeconds dottedQuad (\<lambda>annotations. [])"

section \<open>Concrete snapshots\<close>

text \<open>
  The resources and sources on which the passes are evaluated below.  The template is
  \<open>{{.Name}}.ext-dns.test.com\<close>, as the function that executes it.
\<close>

definition nameTemplate :: "HTTPProxy \<Rightarrow> error + string" where
  "nameTemplate hp = Inr (Name hp @ ''.ext-dns.test.com'')"

definition ex_httpProxy :: HTTPProxy where
  "ex_httpProxy =
     \<lparr>Namespace = ''default'', Name = ''proxy'',
      Annotations = [targetAnnotationKey \<mapsto> ''1.2.3.4''],
      hp_VirtualHost = Some ''foo.bar'', hp_CurrentStatus = ''valid'',
      hp_Ingress = [\<lparr>IP = ''8.8.8.8'', Hostname = []\<rparr>]\<rparr>"

definition ex_invalidProxy :: HTTPProxy where
  "ex_invalidProxy =
     \<lparr>Namespace = ''default'', Name = ''broken'', Annotations = Map.empty,
      hp_VirtualHost = Some ''broken.example.org'', hp_CurrentStatus = ''invalid'',
      hp_Ingress = [\<lparr>IP = ''8.8.8.8'', Hostname = []\<rparr>]\<rparr>"

definition ex_unsortedProxy :: HTTPProxy where
  "ex_unsortedProxy =
     \<lparr>Namespace = ''default'', Name = ''proxy'', Annotations = Map.empty,
      hp_VirtualHost = Some ''foo.bar'', hp_CurrentStatus = ''valid'',
      hp_Ingress = [\<lparr>IP = ''8.8.8.8'', Hostname = []\<rparr>, \<lparr>IP = ''127.0.0.1'', Hostname = []\<rparr>]\<rparr>"

definition ex_httpProxySource :: "HTTPProxy list \<Rightarrow> httpProxySource" where
  "ex_httpProxySource hps =
     \<lparr>hp_httpProxyInformer = (\<lambda>ns. Inr hps), hp_namespace = [],
      hp_fqdnTemplate = Some nameTemplate, hp_annotationSelector = (\<lambda>annotations. True),
      hp_combineFQDNAnnotation = False, hp_ignoreHostnameAnnotation = False\<rparr>"

definition ex_overrideEndpoint :: Endpoint where
  "ex_overrideEndpoint =
     \<lparr>DNSName = ''foo.bar'', Targets = [''1.2.3.4''], RecordType = RecordTypeA,
      SetIdentifier = [], RecordTTL = 0, Labels = Map.empty, ProviderSpecific = []\<rparr>"

definition ex_validEndpoint :: Endpoint where
  "ex_validEndpoint =
     \<lparr>DNSName = ''foo.bar'', Targets = [''1.2.3.4''], RecordType = RecordTypeA,
      SetIdentifier = [], RecordTTL = 0,
      Labels = [ResourceLabelKey \<mapsto> ''HTTPProxy/default/proxy''], ProviderSpecific = []\<rparr>"

definition ex_sortedEndpoint :: Endpoint where
  "ex_sortedEndpoint =
     \<lparr>DNSName = ''foo.bar'', Targets = [''127.0.0.1'', ''8.8.8.8''], RecordType = RecordTypeA,
      SetIdentifier = [], RecordTTL = 0,
      Labels = [ResourceLabelKey \<mapsto> ''HTTPProxy/default/proxy''], ProviderSpecific = []\<rparr>"

text \<open>Three Ambassador hosts: without the annotation, with a service that is not found, with one that is.\<close>

definition ex_plainHost :: Host where
  "ex_plainHost =
     \<lparr>Namespace = ''default'', Name = ''plain'', Annotations = Map.empty,
      host_Spec = Some ''plain.example.com''\<rparr>"

definition ex_missingHost :: Host where
  "ex_missingHost =
     \<lparr>Namespace = ''default'', Name = ''missing'',
      Annotations = [ambHostAnnotation \<mapsto> ''ns1/svc1''],
      host_Spec = Some ''a.example.com''\<rparr>"

definition ex_servedHost :: Host where
  "ex_servedHost =
     \<lparr>Namespace = ''default'', Name = ''served'',
      Annotations = [ambHostAnnotation \<mapsto> ''ns1/svc2''],
      host_Spec = Some ''b.example.com''\<rparr>"

definition ex_ambService :: Service where
  "ex_ambService =
     \<lparr>Namespace = ''ns1'', Name = ''svc2'', Annotations = Map.empty,
      svc_Type = ''LoadBalancer'',
      svc_Ingress = [\<lparr>IP = ''1.2.3.4'', Hostname = []\<rparr>]\<rparr>"

definition ex_ambassadorSource :: "Host list \<Rightarrow> ambassadorHostSource" where
  "ex_ambassadorSource hosts =
     \<lparr>amb_kubeClient =
        (\<lambda>ns name. if ns = ''ns1'' \<and> name = ''svc2'' then Inr ex_ambService else Inl (GetError ns name)),
      amb_hostInformer = (\<lambda>ns. Inr hosts), amb_namespace = []\<rparr>"

definition ex_servedEndpoint :: Endpoint where
  "ex_servedEndpoint =
     \<lparr>DNSName = ''b.example.com'', Targets = [''1.2.3.4''], RecordType = RecordTypeA,
      SetIdentifier = [], RecordTTL = 0, Labels = Map.empty, ProviderSpecific = []\<rparr>"

text \<open>A Gloo proxy in state \<open>Rejected\<close>, and its service with two addresses in descending order.\<close>

definition ex_glooService :: Service where
  "ex_glooService =
     \<lparr>Namespace = ''gloo-system'', Name = ''internal'', Annotations = Map.empty,
      svc_Type = ''LoadBalancer'',
      svc_Ingress = [\<lparr>IP = ''203.0.113.2'', Hostname = []\<rparr>, \<lparr>IP = ''203.0.113.1'', Hostname = []\<rparr>]\<rparr>"

definition ex_glooProxy :: Proxy where
  "ex_glooProxy =
     \<lparr>Namespace = ''gloo-system'', Name = ''internal'', Annotations = Map.empty,
      Listeners = [[\<lparr>Domains = [''a.test''], Metadata_Source = []\<rparr>]],
      Status_State = ''Rejected''\<rparr>"

definition ex_glooSource :: glooSource where
  "ex_glooSource =
     \<lparr>gloo_kubeClient = (\<lambda>ns name. if name = ''internal'' then Inr ex_glooService else Inl (GetError ns name)),
      gloo_glooClient = (\<lambda>ns name. Inl (GetError ns name)),
      gloo_proxyInformer = (\<lambda>ns. Inr [ex_glooProxy]),
      gloo_namespace = ''gloo-system''\<rparr>"

definition ex_glooEndpoint :: Endpoint where
  "ex_glooEndpoint =
     \<lparr>DNSName = ''a.test'', Targets = [''203.0.113.2'', ''203.0.113.1''], RecordType = RecordTypeA,
      SetIdentifier = [], RecordTTL = 0, Labels = Map.empty, ProviderSpecific = []\<rparr>"

text \<open>
  Two IngressRoutes, one of them with a target annotation, and a source whose configured
  service is not found.
\<close>

definition ex_route :: IngressRoute where
  "ex_route =
     \<lparr>Namespace = ''default'', Name = ''plain'', Annotations = Map.empty,
      ir_VirtualHost = Some ''example.org'', ir_CurrentStatus = ''valid''\<rparr>"

definition ex_targetRoute :: IngressRoute where
  "ex_targetRoute =
     \<lparr>Namespace = ''default'', Name = ''with-target'',
      Annotations = [targetAnnotationKey \<mapsto> ''1.2.3.4''],
      ir_VirtualHost = Some ''foo.bar'', ir_CurrentStatus = ''valid''\<rparr>"

definition ex_ingressRouteSource :: "IngressRoute list \<Rightarrow> ingressRouteSource" where
  "ex_ingressRouteSource routes =
     \<lparr>ir_serviceInformer = (\<lambda>ns name. Inl (GetError ns name)),
      ir_ingressRouteInformer = (\<lambda>ns. Inr routes), ir_namespace = [],
      ir_lbService = (''heptio-contour'', ''contour''),
      ir_fqdnTemplate = None, ir_annotationSelector = (\<lambda>annotations. True),
      ir_combineFQDNAnnotation = False, ir_ignoreHostnameAnnotation = False\<rparr>"

definition ex_routeEndpoint :: Endpoint where
  "ex_routeEndpoint =
     \<lparr>DNSName = ''foo.bar'', Targets = [''1.2.3.4''], RecordType = RecordTypeA,
      SetIdentifier = [], RecordTTL = 0,
      Labels = [ResourceLabelKey \<mapsto> ''ingressroute/default/with-target''], ProviderSpecific = []\<rparr>"


definition ex_aliasProxy :: HTTPProxy where
  "ex_aliasProxy =
     \<lparr>Namespace = ''default'', Name = ''proxy'',
      Annotations = [hostnameAnnotationKey \<mapsto> ''alias.example.com''],
      hp_VirtualHost = Some ''foo.bar'', hp_CurrentStatus = ''valid'',
      hp_Ingress = [\<lparr>IP = ''8.8.8.8'', Hostname = []\<rparr>]\<rparr>"

definition ex_combineSource :: "HTTPProxy list \<Rightarrow> httpProxySource" where
  "ex_combineSource hps =
     \<lparr>hp_httpProxyInformer = (\<lambda>ns. Inr hps), hp_namespace = [],
      hp_fqdnTemplate = Some nameTemplate, hp_annotationSelector = (\<lambda>annotations. True),
      hp_combineFQDNAnnotation = True, hp_ignoreHostnameAnnotation = False\<rparr>"

definition ex_hostEndpoint :: "string \<Rightarrow> Endpoint" where
  "ex_hostEndpoint hostname =
     \<lparr>DNSName = hostname, Targets = [''8.8.8.8''], RecordType = RecordTypeA,
      SetIdentifier = [], RecordTTL = 0, Labels = Map.empty, ProviderSpecific = []\<rparr>"


definition ex_bothIngress :: TCPIngress where
  "ex_bothIngress =
     \<lparr>Namespace = ''kong'', Name = ''tcp-ingress-both'',
      Annotations = [hostnameAnnotationKey \<mapsto> ''d.example.com''],
      ti_Rules = [\<lparr>Port = 30004, Host = ''e.example.com''\<rparr>, \<lparr>Port = 30005, Host = ''f.example.com''\<rparr>],
      ti_Ingress = [\<lparr>IP = [], Hostname = ''lb.example.com''\<rparr>]\<rparr>"

definition ex_kongSource :: "TCPIngress list \<Rightarrow> kongTCPIngressSource" where
  "ex_kongSource tis =
     \<lparr>kong_tcpIngressInformer = (\<lambda>ns. Inr tis), kong_namespace = ''kong'',
      kong_annotationSelector = (\<lambda>annotations. True)\<rparr>"

definition ex_kongEndpoint :: "string \<Rightarrow> Endpoint" where
  "ex_kongEndpoint hostname =
     \<lparr>DNSName = hostname, Targets = [''lb.example.com''], RecordType = RecordTypeCNAME,
      SetIdentifier = [], RecordTTL = 0,
      Labels = [ResourceLabelKey \<mapsto> ''tcpingress/kong/tcp-ingress-both''], ProviderSpecific = []\<rparr>"


definition ex_invalidRoute :: IngressRoute where
  "ex_invalidRoute =
     \<lparr>Namespace = ''default'', Name = ''broken'',
      Annotations = [targetAnnotationKey \<mapsto> ''1.2.3.4''],
      ir_VirtualHost = Some ''broken.example.org'', ir_CurrentStatus = ''invalid''\<rparr>"

definition ex_orphanProxy :: Proxy where
  "ex_orphanProxy =
     \<lparr>Namespace = ''gloo-system'', Name = ''external'', Annotations = Map.empty,
      Listeners = [[\<lparr>Domains = [''d.test''], Metadata_Source = []\<rparr>]],
      Status_State = ''Accepted''\<rparr>"

definition ex_cnameEndpoint :: "string \<Rightarrow> Endpoint" where
  "ex_cnameEndpoint hostname =
     \<lparr>DNSName = hostname, Targets = [''lb.example.com''], RecordType = RecordTypeCNAME,
      SetIdentifier = [], RecordTTL = 0, Labels = Map.empty, ProviderSpecific = []\<rparr>"

text \<open>
  A Contour service with a load-balancer address and an IngressRoute source that finds it,
  and a Kong TCPIngress with a target annotation.
\<close>

definition ex_contourService :: Service where
  "ex_contourService =
     \<lparr>Namespace = ''heptio-contour'', Name = ''contour'', Annotations = Map.empty,
      svc_Type = ''LoadBalancer'',
      svc_Ingress = [\<lparr>IP = ''8.8.8.8'', Hostname = []\<rparr>]\<rparr>"

definition ex_servedRouteSource :: "IngressRoute list \<Rightarrow> ingressRouteSource" where
  "ex_servedRouteSource routes =
     (ex_ingressRouteSource routes)\<lparr>ir_serviceInformer :=
        (\<lambda>ns name. if ns = ''heptio-contour'' \<and> name = ''contour'' then Inr ex_contourService
                    else Inl (GetError ns name))\<rparr>"

definition ex_targetIngress :: TCPIngress where
  "ex_targetIngress =
     \<lparr>Namespace = ''kong'', Name = ''tcp-ingress-target'',
      Annotations = [targetAnnotationKey \<mapsto> ''1.2.3.4'', hostnameAnnotationKey \<mapsto> ''a.example.com''],
      ti_Rules = [],
      ti_Ingress = [\<lparr>IP = [], Hostname = ''lb.example.com''\<rparr>]\<rparr>"

section \<open>Properties of the reference parser\<close>

lemma strings_Split_not_Nil: "strings_Split sep s \<noteq> []"
  by (induction s) (auto split: list.splits)

lemma length_strings_Split: "length (strings_Split sep s) = Suc (count_list s sep)"
proof (induction s)
  case Nil
  show ?case by simp
next
  case (Cons x xs)
  show ?case
  proof (cases "strings_Split sep xs")
    case Nil
    with strings_Split_not_Nil show ?thesis by blast
  next
    case (Cons w ws)
    with Cons.IH show ?thesis by simp
  qed
qed

lemma length_strings_SplitN2: "length (strings_SplitN2 sep s) = (if sep \<in> set s then 2 else 1)"
  by (simp add: strings_SplitN2_def)

lemma isl_parseAmbLoadBalancerService:
  "isl (parseAmbLoadBalancerService s) = (1 < count_list s CHR ''/'')"
  by (auto simp: parseAmbLoadBalancerService_def Let_def length_strings_Split)

text \<open>
  C5: the reference parser maps \<open>ns1/svc1\<close> and \<open>svc1.ns1\<close> to namespace \<open>ns1\<close> and name
  \<open>svc1\<close>, a bare \<open>svc1\<close> to the default namespace, rejects \<open>a/b/c\<close>, and returns an
  error exactly when the reference holds more than one \<open>/\<close>.
\<close>

theorem C5_parseAmbLoadBalancerService:
  "parseAmbLoadBalancerService ''ns1/svc1'' = Inr (''ns1'', ''svc1'')
   \<and> parseAmbLoadBalancerService ''svc1.ns1'' = Inr (''ns1'', ''svc1'')
   \<and> parseAmbLoadBalancerService ''svc1'' = Inr (NamespaceDefault, ''svc1'')
   \<and> NamespaceDefault = ''default''
   \<and> parseAmbLoadBalancerService ''a/b/c'' = Inl (InvalidService ''a/b/c'')
   \<and> (\<forall>s. isl (parseAmbLoadBalancerService s) = (1 < count_list s CHR ''/''))"
proof -
  have a: "parseAmbLoadBalancerService ''ns1/svc1'' = Inr (''ns1'', ''svc1'')"
    by (simp add: parseAmbLoadBalancerService_def)
  have b: "parseAmbLoadBalancerService ''svc1.ns1'' = Inr (''ns1'', ''svc1'')"
    by (simp add: parseAmbLoadBalancerService_def strings_SplitN2_def)
  have c: "parseAmbLoadBalancerService ''svc1'' = Inr (NamespaceDefault, ''svc1'')"
    by (simp add: parseAmbLoadBalancerService_def strings_SplitN2_def)
  have d: "parseAmbLoadBalancerService ''a/b/c'' = Inl (InvalidService ''a/b/c'')"
    by (simp add: parseAmbLoadBalancerService_def)
  from a b c d isl_parseAmbLoadBalancerService show ?thesis
    by (simp add: NamespaceDefault_def)
qed

section \<open>The loop of a pass\<close>

lemma collect_acc:
  "collect body rs acc = (case collect body rs [] of Inl err \<Rightarrow> Inl err | Inr out \<Rightarrow> Inr (acc @ out))"
proof (induction rs arbitrary: acc)
  case Nil
  show ?case by simp
next
  case (Cons r rs)
  show ?case
  proof (cases "body r")
    case (Inl err)
    then show ?thesis by simp
  next
    case (Inr eps)
    have "collect body rs (acc @ eps) =
            (case collect body rs [] of Inl err \<Rightarrow> Inl err | Inr out \<Rightarrow> Inr ((acc @ eps) @ out))"
      by (rule Cons.IH)
    moreover have "collect body rs ([] @ eps) =
            (case collect body rs [] of Inl err \<Rightarrow> Inl err | Inr out \<Rightarrow> Inr (([] @ eps) @ out))"
      by (rule Cons.IH)
    ultimately show ?thesis using Inr by (simp split: sum.splits)
  qed
qed

lemma collect_Cons_Inr:
  "body r = Inr eps \<Longrightarrow>
   collect body (r # rs) [] = (case collect body rs [] of Inl err \<Rightarrow> Inl err | Inr out \<Rightarrow> Inr (eps @ out))"
  using collect_acc [of body rs eps] by simp

lemma collect_Inr_mem:
  "collect body rs [] = Inr out \<Longrightarrow> e \<in> set out \<Longrightarrow>
   \<exists>r\<in>set rs. \<exists>eps. body r = Inr eps \<and> e \<in> set eps"
proof (induction rs arbitrary: out)
  case Nil
  then show ?case by simp
next
  case (Cons r rs)
  show ?case
  proof (cases "body r")
    case (Inl err)
    with Cons.prems show ?thesis by simp
  next
    case (Inr eps)
    from Cons.prems(1) have
      "(case collect body rs [] of Inl err \<Rightarrow> Inl err | Inr out' \<Rightarrow> Inr (eps @ out')) = Inr out"
      using collect_Cons_Inr [of body _ _ rs, OF Inr] by simp
    then obtain out' where o: "collect body rs [] = Inr out'" "out = eps @ out'"
      by (auto split: sum.splits)
    with Cons.prems(2) have "e \<in> set eps \<or> e \<in> set out'" by simp
    then show ?thesis
    proof
      assume "e \<in> set eps"
      with Inr show ?thesis by auto
    next
      assume "e \<in> set out'"
      with Cons.IH [OF o(1)] show ?thesis by auto
    qed
  qed
qed

lemma collect_mem_Inr:
  "collect body rs [] = Inr out \<Longrightarrow> r \<in> set rs \<Longrightarrow> body r = Inr eps \<Longrightarrow> set eps \<subseteq> set out"
proof (induction rs arbitrary: out)
  case Nil
  then show ?case by simp
next
  case (Cons r' rs)
  show ?case
  proof (cases "body r'")
    case (Inl err)
    with Cons.prems show ?thesis by simp
  next
    case (Inr eps')
    from Cons.prems(1) have
      "(case collect body rs [] of Inl err \<Rightarrow> Inl err | Inr out' \<Rightarrow> Inr (eps' @ out')) = Inr out"
      using collect_Cons_Inr [of body _ _ rs, OF Inr] by simp
    then obtain out' where o: "collect body rs [] = Inr out'" "out = eps' @ out'"
      by (auto split: sum.splits)
    show ?thesis
    proof (cases "r = r'")
      case True
      with Inr Cons.prems(3) o show ?thesis by auto
    next
      case False
      with Cons.prems(2) have "r \<in> set rs" by simp
      from Cons.IH [OF o(1) this Cons.prems(3)] o show ?thesis by auto
    qed
  qed
qed

lemma collect_total:
  "(\<forall>r\<in>set rs. \<not> isl (body r)) \<Longrightarrow> \<not> isl (collect body rs acc)"
proof (induction rs arbitrary: acc)
  case Nil
  show ?case by simp
next
  case (Cons r rs)
  then show ?case by (cases "body r") auto
qed

lemma collect_fails:
  "r \<in> set rs \<Longrightarrow> isl (body r) \<Longrightarrow> isl (collect body rs acc)"
proof (induction rs arbitrary: acc)
  case Nil
  then show ?case by simp
next
  case (Cons r' rs)
  then show ?case by (cases "body r'") auto
qed

lemma collect_filter:
  "(\<forall>r\<in>set rs. \<not> keep r \<longrightarrow> body r = Inr []) \<Longrightarrow> collect body rs acc = collect body (filter keep rs) acc"
  by (induction rs arbitrary: acc) (auto split: sum.splits)

lemma pass_mem:
  assumes c: "collect body rs [] = Inr endpoints"
    and m: "ep \<in> set (map sortTargets endpoints)"
  shows "\<exists>r\<in>set rs. \<exists>es e. body r = Inr es \<and> e \<in> set es \<and> ep = sortTargets e"
proof -
  from m obtain e where e: "e \<in> set endpoints" "ep = sortTargets e" by auto
  from collect_Inr_mem [OF c e(1)] e(2) show ?thesis by blast
qed

lemma collectCalls_skip:
  "body r = (Inr [], []) \<Longrightarrow>
   collectCalls body (rs1 @ r # rs2) acc cs = collectCalls body (rs1 @ rs2) acc cs"
  by (induction rs1 arbitrary: acc cs) (auto split: sum.splits prod.splits)

lemma collectCalls_fails:
  "r \<in> set rs \<Longrightarrow> isl (fst (body r)) \<Longrightarrow> isl (fst (collectCalls body rs acc cs))"
proof (induction rs arbitrary: acc cs)
  case Nil
  then show ?case by simp
next
  case (Cons r' rs)
  show ?case
  proof (cases "body r'")
    case (Pair res cs')
    show ?thesis
    proof (cases res)
      case (Inl err)
      with Pair show ?thesis by simp
    next
      case (Inr eps)
      show ?thesis
      proof (cases "r = r'")
        case True
        with Cons.prems(2) Pair Inr show ?thesis by simp
      next
        case False
        with Cons.prems(1) have "r \<in> set rs" by simp
        from Cons.IH [OF this Cons.prems(2)] Pair Inr show ?thesis by simp
      qed
    qed
  qed
qed

lemma collectCalls_Inr_mem:
  "collectCalls body rs acc cs = (Inr out, cs') \<Longrightarrow> e \<in> set out \<Longrightarrow>
   e \<in> set acc \<or> (\<exists>r\<in>set rs. \<exists>eps c. body r = (Inr eps, c) \<and> e \<in> set eps)"
proof (induction rs arbitrary: acc cs)
  case Nil
  then show ?case by simp
next
  case (Cons r rs)
  show ?case
  proof (cases "body r")
    case (Pair res c)
    show ?thesis
    proof (cases res)
      case (Inl err)
      with Pair Cons.prems show ?thesis by simp
    next
      case (Inr eps)
      with Pair Cons.prems(1) have "collectCalls body rs (acc @ eps) (cs @ c) = (Inr out, cs')"
        by simp
      from Cons.IH [OF this Cons.prems(2)] Pair Inr show ?thesis by auto
    qed
  qed
qed

section \<open>The functions of one resource\<close>

lemma Labels_sortTargets: "Labels (sortTargets ep) = Labels ep"
  by (simp add: sortTargets_def)

lemma sorted_sortTargets: "sorted (Targets (sortTargets ep))"
  by (simp add: sortTargets_def)

lemma spec_endpoint_fields:
  "ep \<in> set (spec_endpointsForHostname parseIP h T ttl ps sid) \<Longrightarrow>
   DNSName ep = TrimSuffixDot h \<and> Targets ep = T \<and> RecordTTL ep = ttl
   \<and> RecordType ep = inferRecordType parseIP T \<and> Labels ep = Map.empty"
  by (auto simp: spec_endpointsForHostname_def split: if_splits)

lemma specHelpers_sel:
  "getTTLFromAnnotations (specHelpers parseTTL parseIP ps) = spec_getTTLFromAnnotations parseTTL"
  "getTargetsFromTargetAnnotation (specHelpers parseTTL parseIP ps) = spec_getTargetsFromTargetAnnotation"
  "getProviderSpecificAnnotations (specHelpers parseTTL parseIP ps) = spec_getProviderSpecificAnnotations ps"
  "getHostnamesFromAnnotations (specHelpers parseTTL parseIP ps) = spec_getHostnamesFromAnnotations"
  "endpointsForHostname (specHelpers parseTTL parseIP ps) = spec_endpointsForHostname parseIP"
  by (simp_all add: specHelpers_def)

lemma hp_from_mem:
  "hp_endpointsFromHTTPProxy H sc hp = Inr eps \<Longrightarrow> ep \<in> set eps \<Longrightarrow>
   \<exists>h. ep \<in> set (endpointsForHostname H h (hp_targets H hp)
          (fst (getTTLFromAnnotations H (Annotations hp)))
          (fst (getProviderSpecificAnnotations H (Annotations hp)))
          (snd (getProviderSpecificAnnotations H (Annotations hp))))"
  by (auto simp: hp_endpointsFromHTTPProxy_def Let_def split: if_splits option.splits; blast)

lemma hp_tmpl_mem:
  "hp_endpointsFromTemplate H tmpl hp = Inr eps \<Longrightarrow> ep \<in> set eps \<Longrightarrow>
   \<exists>h. ep \<in> set (endpointsForHostname H h (hp_targets H hp)
          (fst (getTTLFromAnnotations H (Annotations hp)))
          (fst (getProviderSpecificAnnotations H (Annotations hp)))
          (snd (getProviderSpecificAnnotations H (Annotations hp))))"
  by (auto simp: hp_endpointsFromTemplate_def Let_def split: sum.splits; blast)

lemma ir_from_mem:
  "endpointsFromIngressRoute H sc rt = Inr eps \<Longrightarrow> ep \<in> set eps \<Longrightarrow>
   \<exists>h T. ir_targets H sc rt = Inr T \<and> ep \<in> set (endpointsForHostname H h T
          (fst (getTTLFromAnnotations H (Annotations rt)))
          (fst (getProviderSpecificAnnotations H (Annotations rt)))
          (snd (getProviderSpecificAnnotations H (Annotations rt))))"
  by (auto simp: endpointsFromIngressRoute_def Let_def split: if_splits option.splits sum.splits; blast)

lemma ir_tmpl_mem:
  "ir_endpointsFromTemplate H sc tmpl rt = Inr eps \<Longrightarrow> ep \<in> set eps \<Longrightarrow>
   \<exists>h T. ir_targets H sc rt = Inr T \<and> ep \<in> set (endpointsForHostname H h T
          (fst (getTTLFromAnnotations H (Annotations rt)))
          (fst (getProviderSpecificAnnotations H (Annotations rt)))
          (snd (getProviderSpecificAnnotations H (Annotations rt))))"
  by (auto simp: ir_endpointsFromTemplate_def Let_def split: sum.splits; blast)

lemma ir_targets_total: "\<exists>T. ir_targets H sc rt = Inr T"
  by (simp add: ir_targets_def targetsFromContourLoadBalancer_def Let_def split: sum.splits)

lemma endpointsFromIngressRoute_total: "\<exists>eps. endpointsFromIngressRoute H sc rt = Inr eps"
  using ir_targets_total [of H sc rt]
  by (auto simp: endpointsFromIngressRoute_def Let_def)

lemma ir_endpointsFromTemplate_total:
  "tmpl rt = Inr hostnames \<Longrightarrow> \<exists>eps. ir_endpointsFromTemplate H sc tmpl rt = Inr eps"
  using ir_targets_total [of H sc rt]
  by (auto simp: ir_endpointsFromTemplate_def Let_def)

lemma ir_withTemplate_total:
  assumes "\<forall>tmpl. ir_fqdnTemplate sc = Some tmpl \<longrightarrow> \<not> isl (tmpl rt)"
  shows "\<exists>eps. ir_withTemplate H sc rt = Inr eps"
proof -
  from endpointsFromIngressRoute_total obtain eps where e: "endpointsFromIngressRoute H sc rt = Inr eps"
    by blast
  show ?thesis
  proof (cases "ir_fqdnTemplate sc")
    case None
    with e show ?thesis by (simp add: ir_withTemplate_def)
  next
    case (Some tmpl)
    with assms obtain hostnames where "tmpl rt = Inr hostnames" by (cases "tmpl rt") auto
    with ir_endpointsFromTemplate_total [of tmpl rt hostnames H sc] obtain t where
      "ir_endpointsFromTemplate H sc tmpl rt = Inr t" by blast
    with e Some show ?thesis by (simp add: ir_withTemplate_def)
  qed
qed

lemma ir_resource_total:
  assumes "\<forall>tmpl. ir_fqdnTemplate sc = Some tmpl \<longrightarrow> \<not> isl (tmpl rt)"
  shows "\<not> isl (ir_resourceEndpoints H sc rt)"
  using ir_withTemplate_total [OF assms, of H]
  by (auto simp: ir_resourceEndpoints_def split: if_splits)





lemma ir_pass_total:
  assumes l: "ir_ingressRouteInformer sc (ir_namespace sc) = Inr rts"
    and t: "\<forall>r\<in>set rts. \<forall>tmpl. ir_fqdnTemplate sc = Some tmpl \<longrightarrow> \<not> isl (tmpl r)"
  shows "\<exists>endpoints. ir_Endpoints H sc = Inr endpoints
           \<and> (\<forall>r\<in>set rts. \<forall>es. ir_resourceEndpoints H sc r = Inr es \<longrightarrow>
                 sortTargets ` set es \<subseteq> set endpoints)"
proof -
  from t have "\<forall>r\<in>set rts. \<not> isl (ir_resourceEndpoints H sc r)"
    by (simp add: ir_resource_total)
  then have "\<not> isl (collect (ir_resourceEndpoints H sc) rts [])" by (rule collect_total)
  then obtain out where o: "collect (ir_resourceEndpoints H sc) rts [] = Inr out"
    by (cases "collect (ir_resourceEndpoints H sc) rts []") auto
  with l have e: "ir_Endpoints H sc = Inr (map sortTargets out)" by (simp add: ir_Endpoints_def)
  have "sortTargets ` set es \<subseteq> set (map sortTargets out)"
    if "r \<in> set rts" "ir_resourceEndpoints H sc r = Inr es" for r es
    using collect_mem_Inr [OF o that] by auto
  with e show ?thesis by blast
qed


lemma spec_names:
  "T \<noteq> [] \<Longrightarrow>
   map DNSName (concat (map (\<lambda>h. spec_endpointsForHostname parseIP h T ttl pr sid) hs)) = map TrimSuffixDot hs"
  by (induction hs) (simp_all add: spec_endpointsForHostname_def)

lemma spec_all_fields:
  "\<forall>ep\<in>set (concat (map (\<lambda>h. spec_endpointsForHostname parseIP h T ttl pr sid) hs)).
     Targets ep = T \<and> RecordTTL ep = ttl \<and> RecordType ep = inferRecordType parseIP T"
  by (auto simp: spec_endpointsForHostname_def split: if_splits)

lemma hp_from_spec:
  assumes v: "hp_CurrentStatus hp = ''valid''"
  shows "hp_endpointsFromHTTPProxy (specHelpers parseTTL parseIP ps) hsc hp =
     Inr (concat (map (\<lambda>h. spec_endpointsForHostname parseIP h (hp_targets (specHelpers parseTTL parseIP ps) hp)
              (fst (spec_getTTLFromAnnotations parseTTL (Annotations hp)))
              (fst (spec_getProviderSpecificAnnotations ps (Annotations hp)))
              (snd (spec_getProviderSpecificAnnotations ps (Annotations hp))))
          ((case hp_VirtualHost hp of None \<Rightarrow> [] | Some fqdn \<Rightarrow> if fqdn \<noteq> [] then [fqdn] else [])
           @ (if hp_ignoreHostnameAnnotation hsc then []
              else spec_getHostnamesFromAnnotations (Annotations hp)))))"
  using v by (simp add: hp_endpointsFromHTTPProxy_def Let_def specHelpers_sel split: option.splits)

lemma hp_tmpl_spec:
  assumes t: "tmpl hp = Inr hostnames"
  shows "hp_endpointsFromTemplate (specHelpers parseTTL parseIP ps) tmpl hp =
     Inr (concat (map (\<lambda>h. spec_endpointsForHostname parseIP h (hp_targets (specHelpers parseTTL parseIP ps) hp)
              (fst (spec_getTTLFromAnnotations parseTTL (Annotations hp)))
              (fst (spec_getProviderSpecificAnnotations ps (Annotations hp)))
              (snd (spec_getProviderSpecificAnnotations ps (Annotations hp))))
          (map TrimSuffixDot (strings_Split CHR '','' (RemoveSpaces hostnames)))))"
  using t by (simp add: hp_endpointsFromTemplate_def Let_def specHelpers_sel comp_def)

lemma ir_from_spec:
  assumes v: "ir_CurrentStatus rt = ''valid''" and T: "ir_targets (specHelpers parseTTL parseIP ps) isc rt = Inr T"
  shows "endpointsFromIngressRoute (specHelpers parseTTL parseIP ps) isc rt =
     Inr (concat (map (\<lambda>h. spec_endpointsForHostname parseIP h T
              (fst (spec_getTTLFromAnnotations parseTTL (Annotations rt)))
              (fst (spec_getProviderSpecificAnnotations ps (Annotations rt)))
              (snd (spec_getProviderSpecificAnnotations ps (Annotations rt))))
          ((case ir_VirtualHost rt of None \<Rightarrow> [] | Some fqdn \<Rightarrow> if fqdn \<noteq> [] then [fqdn] else [])
           @ (if ir_ignoreHostnameAnnotation isc then []
              else spec_getHostnamesFromAnnotations (Annotations rt)))))"
  using v T by (simp add: endpointsFromIngressRoute_def Let_def specHelpers_sel split: option.splits)

lemma ir_tmpl_spec:
  assumes t: "tmpl rt = Inr hostnames" and T: "ir_targets (specHelpers parseTTL parseIP ps) isc rt = Inr T"
  shows "ir_endpointsFromTemplate (specHelpers parseTTL parseIP ps) isc tmpl rt =
     Inr (concat (map (\<lambda>h. spec_endpointsForHostname parseIP h T
              (fst (spec_getTTLFromAnnotations parseTTL (Annotations rt)))
              (fst (spec_getProviderSpecificAnnotations ps (Annotations rt)))
              (snd (spec_getProviderSpecificAnnotations ps (Annotations rt))))
          (map TrimSuffixDot (strings_Split CHR '','' (RemoveSpaces hostnames)))))"
  using t T by (simp add: ir_endpointsFromTemplate_def Let_def specHelpers_sel comp_def)

section \<open>Evaluation of the snapshots\<close>

lemmas string_defs = TrimSuffixDot_def RemoveSpaces_def strings_SplitN2_def
  less_eq_char_def less_char_def

lemmas key_defs = controllerAnnotationKey_def controllerAnnotationValue_def targetAnnotationKey_def
  hostnameAnnotationKey_def ttlAnnotationKey_def ALBDualstackAnnotationKey_def
  ALBDualstackAnnotationValue_def ResourceLabelKey_def DualstackLabelKey_def ambHostAnnotation_def
  setIdentifierKey_def NamespaceDefault_def

lemmas helper_defs = exampleHelpers_def specHelpers_def spec_getTTLFromAnnotations_def
  spec_getTargetsFromTargetAnnotation_def spec_getHostnamesFromAnnotations_def
  spec_getProviderSpecificAnnotations_def spec_endpointsForHostname_def inferRecordType_def
  decimalSeconds_def dottedQuad_def isOctet_def isDigit_def decimalValue_def
  ingressTargets_def lbTargets_def sortTargets_def

lemmas hp_defs = hp_Endpoints_def hp_resourceEndpoints_def hp_withTemplate_def
  hp_endpointsFromHTTPProxy_def hp_endpointsFromTemplate_def hp_setResourceLabel_def hp_targets_def

lemmas ir_defs = ir_Endpoints_def ir_resourceEndpoints_def ir_withTemplate_def
  endpointsFromIngressRoute_def ir_endpointsFromTemplate_def ir_setResourceLabel_def ir_targets_def
  targetsFromContourLoadBalancer_def

lemmas kong_defs = kong_Endpoints_def kong_resourceEndpoints_def endpointsFromTCPIngress_def
  kong_setResourceLabel_def setDualstackLabel_def

lemmas amb_defs = amb_Endpoints_def amb_resourceEndpoints_def targetsFromAmbassadorLoadBalancer_def
  endpointsFromHost_def parseAmbLoadBalancerService_def

lemma dottedQuad_203_2: "dottedQuad ''203.0.113.2'' = Some IPv4"
  by (simp add: dottedQuad_def isOctet_def isDigit_def decimalValue_def less_eq_char_def)

lemma dottedQuad_203_1: "dottedQuad ''203.0.113.1'' = Some IPv4"
  by (simp add: dottedQuad_def isOctet_def isDigit_def decimalValue_def less_eq_char_def)

lemma ex_gloo_pass: "gloo_Endpoints exampleHelpers ex_glooSource = Inr [ex_glooEndpoint]"
  by (simp add: gloo_Endpoints_def ex_glooSource_def ex_glooProxy_def ex_glooService_def
      gloo_resourceEndpoints_def proxyTargets_def endpointsFromProxy_def gloo_vhostEndpoints_def
      annotationsFromVirtualHost_def exampleHelpers_def specHelpers_def
      spec_getTTLFromAnnotations_def spec_getProviderSpecificAnnotations_def
      spec_endpointsForHostname_def inferRecordType_def ingressTargets_def lbTargets_def
      TrimSuffixDot_def ex_glooEndpoint_def dottedQuad_203_1 dottedQuad_203_2)

lemma ex_override_eval:
  "hp_endpointsFromHTTPProxy exampleHelpers (ex_httpProxySource hps) ex_httpProxy = Inr [ex_overrideEndpoint]"
  by (simp add: hp_defs helper_defs string_defs key_defs ex_httpProxy_def ex_httpProxySource_def
      ex_overrideEndpoint_def)

lemma ex_unsorted_eval:
  "hp_Endpoints exampleHelpers (ex_httpProxySource [ex_unsortedProxy]) = Inr [ex_sortedEndpoint]"
  by (simp add: hp_defs helper_defs string_defs key_defs ex_unsortedProxy_def ex_httpProxySource_def
      ex_sortedEndpoint_def nameTemplate_def)

lemma ex_valid_eval:
  "hp_Endpoints exampleHelpers (ex_httpProxySource [ex_httpProxy]) = Inr [ex_validEndpoint]"
  by (simp add: hp_defs helper_defs string_defs key_defs ex_httpProxy_def ex_httpProxySource_def
      ex_validEndpoint_def nameTemplate_def)

lemma ex_served_eval:
  "amb_Endpoints exampleHelpers (ex_ambassadorSource [ex_servedHost]) =
     (Inr [ex_servedEndpoint], [(''ns1'', ''svc2'')])"
  by (simp add: amb_defs helper_defs string_defs key_defs ex_servedHost_def ex_ambassadorSource_def
      ex_ambService_def ex_servedEndpoint_def)

lemma ex_missing_eval:
  "amb_Endpoints exampleHelpers (ex_ambassadorSource [ex_missingHost, ex_servedHost]) =
     (Inl (GetError ''ns1'' ''svc1''), [(''ns1'', ''svc1'')])"
  by (simp add: amb_defs helper_defs string_defs key_defs ex_servedHost_def ex_missingHost_def
      ex_ambassadorSource_def ex_ambService_def)

lemma ex_route_eval:
  "ir_Endpoints exampleHelpers (ex_ingressRouteSource [ex_route, ex_targetRoute]) = Inr [ex_routeEndpoint]"
  by (simp add: ir_defs helper_defs string_defs key_defs ex_route_def ex_targetRoute_def
      ex_ingressRouteSource_def ex_routeEndpoint_def)



lemma ex_kong_both_eval:
  "kong_Endpoints exampleHelpers (ex_kongSource [ex_bothIngress]) =
     Inr [ex_kongEndpoint ''d.example.com'', ex_kongEndpoint ''e.example.com'',
          ex_kongEndpoint ''f.example.com'']"
  by (simp add: kong_defs helper_defs string_defs key_defs ex_bothIngress_def ex_kongSource_def
      ex_kongEndpoint_def)





lemma ex_target_route_eval:
  "ir_Endpoints exampleHelpers (ex_ingressRouteSource [ex_targetRoute]) = Inr [ex_routeEndpoint]"
  by (simp add: ir_defs helper_defs string_defs key_defs ex_targetRoute_def
      ex_ingressRouteSource_def ex_routeEndpoint_def)

lemma ex_target_route_targets:
  "getTargetsFromTargetAnnotation exampleHelpers (Annotations ex_targetRoute) = [''1.2.3.4'']"
  by (simp add: helper_defs key_defs ex_targetRoute_def)

lemma ex_kong_rules_eval:
  "endpointsForHostname exampleHelpers h [''lb.example.com'']
     (fst (getTTLFromAnnotations exampleHelpers (Annotations ex_bothIngress)))
     (fst (getProviderSpecificAnnotations exampleHelpers (Annotations ex_bothIngress)))
     (snd (getProviderSpecificAnnotations exampleHelpers (Annotations ex_bothIngress)))
   = [ex_cnameEndpoint (TrimSuffixDot h)]"
  by (simp add: helper_defs key_defs ex_bothIngress_def ex_cnameEndpoint_def TrimSuffixDot_def
      less_eq_char_def less_char_def)

lemma ex_served_route_native:
  "targetsFromContourLoadBalancer (ex_servedRouteSource routes) = Inr [''8.8.8.8'']"
  by (simp add: targetsFromContourLoadBalancer_def ex_servedRouteSource_def ex_ingressRouteSource_def
      ex_contourService_def ingressTargets_def lbTargets_def)

lemma ex_served_route_plain:
  "ir_targets exampleHelpers (ex_servedRouteSource routes) ex_route = Inr [''8.8.8.8'']"
  by (simp add: ir_targets_def ex_served_route_native helper_defs key_defs ex_route_def)

lemma ex_served_route_eval:
  "endpointsFromIngressRoute exampleHelpers (ex_servedRouteSource routes) ex_targetRoute
     = Inr [ex_overrideEndpoint]"
  by (simp add: ir_defs helper_defs string_defs key_defs ex_targetRoute_def ex_servedRouteSource_def
      ex_ingressRouteSource_def ex_overrideEndpoint_def)

lemma ex_target_ingress_eval:
  "kong_Endpoints exampleHelpers (ex_kongSource [ex_targetIngress]) =
     Inr [(ex_cnameEndpoint ''a.example.com'')\<lparr>Labels :=
            [ResourceLabelKey \<mapsto> ''tcpingress/kong/tcp-ingress-target'']\<rparr>]"
  by (simp add: kong_defs helper_defs string_defs key_defs ex_targetIngress_def ex_kongSource_def
      ex_cnameEndpoint_def)

lemma ex_target_ingress_targets:
  "getTargetsFromTargetAnnotation exampleHelpers (Annotations ex_targetIngress) = [''1.2.3.4'']"
  by (simp add: helper_defs key_defs ex_targetIngress_def)

lemma ex_target_ingress_resource:
  "kong_resourceEndpoints exampleHelpers (ex_kongSource tis) ex_targetIngress =
     Inr [(ex_cnameEndpoint ''a.example.com'')\<lparr>Labels :=
            [ResourceLabelKey \<mapsto> ''tcpingress/kong/tcp-ingress-target'']\<rparr>]"
  by (simp add: kong_defs helper_defs string_defs key_defs ex_targetIngress_def ex_kongSource_def
      ex_cnameEndpoint_def)




section \<open>The target annotation\<close>

lemma spec_targets_value:
  "ann targetAnnotationKey = Some v \<Longrightarrow> v \<noteq> [] \<Longrightarrow>
   spec_getTargetsFromTargetAnnotation ann = strings_Split CHR '','' v"
  by (simp add: spec_getTargetsFromTargetAnnotation_def)

lemma infer_1234:
  "parseIP ''1.2.3.4'' = Some IPv4 \<Longrightarrow> inferRecordType parseIP [''1.2.3.4''] = RecordTypeA"
  by (simp add: inferRecordType_def)

lemma hp_override:
  assumes "getTargetsFromTargetAnnotation H (Annotations hp) \<noteq> []"
  shows "hp_targets H hp = getTargetsFromTargetAnnotation H (Annotations hp)
      \<and> (\<forall>ingress. hp_targets H (hp\<lparr>hp_Ingress := ingress\<rparr>) = hp_targets H hp
            \<and> hp_endpointsFromHTTPProxy H hsc (hp\<lparr>hp_Ingress := ingress\<rparr>)
                = hp_endpointsFromHTTPProxy H hsc hp)"
  using assms by (simp add: hp_targets_def hp_endpointsFromHTTPProxy_def Let_def)

lemma ir_override:
  assumes "getTargetsFromTargetAnnotation H (Annotations rt) \<noteq> []"
  shows "ir_targets H isc rt = Inr (getTargetsFromTargetAnnotation H (Annotations rt))
      \<and> (\<forall>lookup. ir_targets H (isc\<lparr>ir_serviceInformer := lookup\<rparr>) rt = ir_targets H isc rt
            \<and> endpointsFromIngressRoute H (isc\<lparr>ir_serviceInformer := lookup\<rparr>) rt
                = endpointsFromIngressRoute H isc rt
            \<and> (\<forall>tmpl. ir_endpointsFromTemplate H (isc\<lparr>ir_serviceInformer := lookup\<rparr>) tmpl rt
                = ir_endpointsFromTemplate H isc tmpl rt))"
proof -
  have t: "ir_targets H (isc\<lparr>ir_serviceInformer := lookup\<rparr>) rt = ir_targets H isc rt" for lookup
    using assms by (simp add: ir_targets_def Let_def)
  have v: "ir_targets H isc rt = Inr (getTargetsFromTargetAnnotation H (Annotations rt))"
    using assms by (simp add: ir_targets_def Let_def)
  have e: "endpointsFromIngressRoute H (isc\<lparr>ir_serviceInformer := lookup\<rparr>) rt
      = endpointsFromIngressRoute H isc rt" for lookup
    by (simp add: endpointsFromIngressRoute_def t Let_def split: sum.splits option.splits)
  have f: "ir_endpointsFromTemplate H (isc\<lparr>ir_serviceInformer := lookup\<rparr>) tmpl rt
      = ir_endpointsFromTemplate H isc tmpl rt" for lookup tmpl
    by (simp add: ir_endpointsFromTemplate_def t Let_def split: sum.splits option.splits)
  from t v e f show ?thesis by blast
qed

lemma hp_override_value:
  "Annotations hp targetAnnotationKey = Some v \<Longrightarrow> v \<noteq> [] \<Longrightarrow>
   hp_targets (specHelpers parseTTL parseIP ps) hp = strings_Split CHR '','' v"
  by (simp add: hp_targets_def specHelpers_sel spec_targets_value strings_Split_not_Nil)

lemma ir_override_value:
  "Annotations rt targetAnnotationKey = Some v \<Longrightarrow> v \<noteq> [] \<Longrightarrow>
   ir_targets (specHelpers parseTTL parseIP ps) isc rt = Inr (strings_Split CHR '','' v)"
  by (simp add: ir_targets_def specHelpers_sel spec_targets_value strings_Split_not_Nil)

lemma hp_override_1234:
  assumes k: "Annotations hp targetAnnotationKey = Some ''1.2.3.4''" and p: "parseIP ''1.2.3.4'' = Some IPv4"
  shows "hp_targets (specHelpers parseTTL parseIP ps) hp = [''1.2.3.4'']
     \<and> (\<exists>eps. hp_endpointsFromHTTPProxy (specHelpers parseTTL parseIP ps) hsc hp = Inr eps
           \<and> (\<forall>ep\<in>set eps. Targets ep = [''1.2.3.4''] \<and> RecordType ep = RecordTypeA)
           \<and> (hp_CurrentStatus hp = ''valid'' \<longrightarrow>
                map DNSName eps = map TrimSuffixDot
                  ((case hp_VirtualHost hp of None \<Rightarrow> [] | Some fqdn \<Rightarrow> if fqdn \<noteq> [] then [fqdn] else [])
                   @ (if hp_ignoreHostnameAnnotation hsc then []
                      else getHostnamesFromAnnotations (specHelpers parseTTL parseIP ps) (Annotations hp)))))
     \<and> (\<forall>tmpl hostnames. tmpl hp = Inr hostnames \<longrightarrow>
           (\<exists>eps. hp_endpointsFromTemplate (specHelpers parseTTL parseIP ps) tmpl hp = Inr eps
              \<and> (\<forall>ep\<in>set eps. Targets ep = [''1.2.3.4''] \<and> RecordType ep = RecordTypeA)
              \<and> map DNSName eps = map TrimSuffixDot
                   (map TrimSuffixDot (strings_Split CHR '','' (RemoveSpaces hostnames)))))"
proof -
  let ?S = "specHelpers parseTTL parseIP ps"
  let ?T = "[''1.2.3.4'']"
  have t: "hp_targets ?S hp = ?T"
    using hp_override_value [of hp "''1.2.3.4''" parseTTL parseIP ps] k by simp
  have r: "inferRecordType parseIP ?T = RecordTypeA"
    using p by (rule infer_1234)
  have ne: "?T \<noteq> []" by simp
  have one: "\<exists>eps. hp_endpointsFromHTTPProxy ?S hsc hp = Inr eps
           \<and> (\<forall>ep\<in>set eps. Targets ep = ?T \<and> RecordType ep = RecordTypeA)
           \<and> (hp_CurrentStatus hp = ''valid'' \<longrightarrow>
                map DNSName eps = map TrimSuffixDot
                  ((case hp_VirtualHost hp of None \<Rightarrow> [] | Some fqdn \<Rightarrow> if fqdn \<noteq> [] then [fqdn] else [])
                   @ (if hp_ignoreHostnameAnnotation hsc then []
                      else getHostnamesFromAnnotations ?S (Annotations hp))))"
  proof (cases "hp_CurrentStatus hp = ''valid''")
    case False
    then show ?thesis by (simp add: hp_endpointsFromHTTPProxy_def)
  next
    case True
    let ?hs = "(case hp_VirtualHost hp of None \<Rightarrow> [] | Some fqdn \<Rightarrow> if fqdn \<noteq> [] then [fqdn] else [])
                    @ (if hp_ignoreHostnameAnnotation hsc then []
                       else spec_getHostnamesFromAnnotations (Annotations hp))"
    let ?eps = "concat (map (\<lambda>h. spec_endpointsForHostname parseIP h ?T
              (fst (spec_getTTLFromAnnotations parseTTL (Annotations hp)))
              (fst (spec_getProviderSpecificAnnotations ps (Annotations hp)))
              (snd (spec_getProviderSpecificAnnotations ps (Annotations hp)))) ?hs)"
    have e: "hp_endpointsFromHTTPProxy ?S hsc hp = Inr ?eps"
      by (simp only: hp_from_spec [OF True] t)
    have f: "\<forall>ep\<in>set ?eps. Targets ep = ?T \<and> RecordType ep = RecordTypeA"
      using spec_all_fields [where hs = ?hs and T = ?T and parseIP = parseIP] r by fastforce
    show ?thesis
      unfolding specHelpers_sel(4)
    proof (intro exI conjI impI)
      show "hp_endpointsFromHTTPProxy ?S hsc hp = Inr ?eps" by (rule e)
      show "\<forall>ep\<in>set ?eps. Targets ep = ?T \<and> RecordType ep = RecordTypeA" by (rule f)
      from ne show "map DNSName ?eps = map TrimSuffixDot ?hs" by (rule spec_names)
    qed
  qed
  have two: "\<exists>eps. hp_endpointsFromTemplate ?S tmpl hp = Inr eps
              \<and> (\<forall>ep\<in>set eps. Targets ep = ?T \<and> RecordType ep = RecordTypeA)
              \<and> map DNSName eps = map TrimSuffixDot
                   (map TrimSuffixDot (strings_Split CHR '','' (RemoveSpaces hostnames)))"
    if h: "tmpl hp = Inr hostnames" for tmpl hostnames
  proof -
    let ?hs = "map TrimSuffixDot (strings_Split CHR '','' (RemoveSpaces hostnames))"
    let ?eps = "concat (map (\<lambda>h. spec_endpointsForHostname parseIP h ?T
              (fst (spec_getTTLFromAnnotations parseTTL (Annotations hp)))
              (fst (spec_getProviderSpecificAnnotations ps (Annotations hp)))
              (snd (spec_getProviderSpecificAnnotations ps (Annotations hp)))) ?hs)"
    note e0 = hp_tmpl_spec [where tmpl = tmpl and hp = hp and hostnames = hostnames
        and parseTTL = parseTTL and parseIP = parseIP and ps = ps, unfolded t]
    have e: "hp_endpointsFromTemplate ?S tmpl hp = Inr ?eps"
      using h by (rule e0)
    have f: "\<forall>ep\<in>set ?eps. Targets ep = ?T \<and> RecordType ep = RecordTypeA"
      using spec_all_fields [where hs = ?hs and T = ?T and parseIP = parseIP] r by fastforce
    show ?thesis
    proof (intro exI conjI)
      show "hp_endpointsFromTemplate ?S tmpl hp = Inr ?eps" by (rule e)
      show "\<forall>ep\<in>set ?eps. Targets ep = ?T \<and> RecordType ep = RecordTypeA" by (rule f)
      from ne show "map DNSName ?eps = map TrimSuffixDot ?hs" by (rule spec_names)
    qed
  qed
  from t one two show ?thesis by blast
qed

lemma ir_override_1234:
  assumes k: "Annotations rt targetAnnotationKey = Some ''1.2.3.4''" and p: "parseIP ''1.2.3.4'' = Some IPv4"
  shows "ir_targets (specHelpers parseTTL parseIP ps) isc rt = Inr [''1.2.3.4'']
     \<and> (\<exists>eps. endpointsFromIngressRoute (specHelpers parseTTL parseIP ps) isc rt = Inr eps
           \<and> (\<forall>ep\<in>set eps. Targets ep = [''1.2.3.4''] \<and> RecordType ep = RecordTypeA)
           \<and> (ir_CurrentStatus rt = ''valid'' \<longrightarrow>
                map DNSName eps = map TrimSuffixDot
                  ((case ir_VirtualHost rt of None \<Rightarrow> [] | Some fqdn \<Rightarrow> if fqdn \<noteq> [] then [fqdn] else [])
                   @ (if ir_ignoreHostnameAnnotation isc then []
                      else getHostnamesFromAnnotations (specHelpers parseTTL parseIP ps) (Annotations rt)))))
     \<and> (\<forall>tmpl hostnames. tmpl rt = Inr hostnames \<longrightarrow>
           (\<exists>eps. ir_endpointsFromTemplate (specHelpers parseTTL parseIP ps) isc tmpl rt = Inr eps
              \<and> (\<forall>ep\<in>set eps. Targets ep = [''1.2.3.4''] \<and> RecordType ep = RecordTypeA)
              \<and> map DNSName eps = map TrimSuffixDot
                   (map TrimSuffixDot (strings_Split CHR '','' (RemoveSpaces hostnames)))))"
proof -
  let ?S = "specHelpers parseTTL parseIP ps"
  let ?T = "[''1.2.3.4'']"
  have t: "ir_targets ?S isc rt = Inr ?T"
    using ir_override_value [of rt "''1.2.3.4''" parseTTL parseIP ps isc] k by simp
  have r: "inferRecordType parseIP ?T = RecordTypeA"
    using p by (rule infer_1234)
  have ne: "?T \<noteq> []" by simp
  have one: "\<exists>eps. endpointsFromIngressRoute ?S isc rt = Inr eps
           \<and> (\<forall>ep\<in>set eps. Targets ep = ?T \<and> RecordType ep = RecordTypeA)
           \<and> (ir_CurrentStatus rt = ''valid'' \<longrightarrow>
                map DNSName eps = map TrimSuffixDot
                  ((case ir_VirtualHost rt of None \<Rightarrow> [] | Some fqdn \<Rightarrow> if fqdn \<noteq> [] then [fqdn] else [])
                   @ (if ir_ignoreHostnameAnnotation isc then []
                      else getHostnamesFromAnnotations ?S (Annotations rt))))"
  proof (cases "ir_CurrentStatus rt = ''valid''")
    case False
    then show ?thesis by (simp add: endpointsFromIngressRoute_def)
  next
    case True
    let ?hs = "(case ir_VirtualHost rt of None \<Rightarrow> [] | Some fqdn \<Rightarrow> if fqdn \<noteq> [] then [fqdn] else [])
                    @ (if ir_ignoreHostnameAnnotation isc then []
                       else spec_getHostnamesFromAnnotations (Annotations rt))"
    let ?eps = "concat (map (\<lambda>h. spec_endpointsForHostname parseIP h ?T
              (fst (spec_getTTLFromAnnotations parseTTL (Annotations rt)))
              (fst (spec_getProviderSpecificAnnotations ps (Annotations rt)))
              (snd (spec_getProviderSpecificAnnotations ps (Annotations rt)))) ?hs)"
    have e: "endpointsFromIngressRoute ?S isc rt = Inr ?eps"
      by (simp only: ir_from_spec [OF True t])
    have f: "\<forall>ep\<in>set ?eps. Targets ep = ?T \<and> RecordType ep = RecordTypeA"
      using spec_all_fields [where hs = ?hs and T = ?T and parseIP = parseIP] r by fastforce
    show ?thesis
      unfolding specHelpers_sel(4)
    proof (intro exI conjI impI)
      show "endpointsFromIngressRoute ?S isc rt = Inr ?eps" by (rule e)
      show "\<forall>ep\<in>set ?eps. Targets ep = ?T \<and> RecordType ep = RecordTypeA" by (rule f)
      from ne show "map DNSName ?eps = map TrimSuffixDot ?hs" by (rule spec_names)
    qed
  qed
  have two: "\<exists>eps. ir_endpointsFromTemplate ?S isc tmpl rt = Inr eps
              \<and> (\<forall>ep\<in>set eps. Targets ep = ?T \<and> RecordType ep = RecordTypeA)
              \<and> map DNSName eps = map TrimSuffixDot
                   (map TrimSuffixDot (strings_Split CHR '','' (RemoveSpaces hostnames)))"
    if h: "tmpl rt = Inr hostnames" for tmpl hostnames
  proof -
    let ?hs = "map TrimSuffixDot (strings_Split CHR '','' (RemoveSpaces hostnames))"
    let ?eps = "concat (map (\<lambda>h. spec_endpointsForHostname parseIP h ?T
              (fst (spec_getTTLFromAnnotations parseTTL (Annotations rt)))
              (fst (spec_getProviderSpecificAnnotations ps (Annotations rt)))
              (snd (spec_getProviderSpecificAnnotations ps (Annotations rt)))) ?hs)"
    note e0 = ir_tmpl_spec [where tmpl = tmpl and rt = rt and hostnames = hostnames and T = ?T
        and isc = isc and parseTTL = parseTTL and parseIP = parseIP and ps = ps]
    have e: "ir_endpointsFromTemplate ?S isc tmpl rt = Inr ?eps"
      using h t by (rule e0)
    have f: "\<forall>ep\<in>set ?eps. Targets ep = ?T \<and> RecordType ep = RecordTypeA"
      using spec_all_fields [where hs = ?hs and T = ?T and parseIP = parseIP] r by fastforce
    show ?thesis
    proof (intro exI conjI)
      show "ir_endpointsFromTemplate ?S isc tmpl rt = Inr ?eps" by (rule e)
      show "\<forall>ep\<in>set ?eps. Targets ep = ?T \<and> RecordType ep = RecordTypeA" by (rule f)
      from ne show "map DNSName ?eps = map TrimSuffixDot ?hs" by (rule spec_names)
    qed
  qed
  from t one two show ?thesis by blast
qed

lemma kong_ignores_target_helper:
  "kong_Endpoints (H\<lparr>getTargetsFromTargetAnnotation := g\<rparr>) ksc = kong_Endpoints H ksc"
proof -
  have a: "endpointsFromTCPIngress (H\<lparr>getTargetsFromTargetAnnotation := g\<rparr>) = endpointsFromTCPIngress H"
    by (simp add: fun_eq_iff endpointsFromTCPIngress_def Let_def split: option.splits cong: if_cong)
  have b: "kong_resourceEndpoints (H\<lparr>getTargetsFromTargetAnnotation := g\<rparr>) = kong_resourceEndpoints H"
    unfolding fun_eq_iff kong_resourceEndpoints_def a by simp
  show ?thesis unfolding kong_Endpoints_def b by (rule refl)
qed

lemma amb_ignores_target_helper:
  "amb_Endpoints (H\<lparr>getTargetsFromTargetAnnotation := g\<rparr>) asc = amb_Endpoints H asc"
proof -
  have a: "endpointsFromHost (H\<lparr>getTargetsFromTargetAnnotation := g\<rparr>) = endpointsFromHost H"
    by (simp add: fun_eq_iff endpointsFromHost_def split: option.splits cong: if_cong)
  have b: "amb_resourceEndpoints (H\<lparr>getTargetsFromTargetAnnotation := g\<rparr>) = amb_resourceEndpoints H"
    unfolding fun_eq_iff amb_resourceEndpoints_def a by simp
  show ?thesis unfolding amb_Endpoints_def b by (rule refl)
qed

lemma gloo_ignores_target_helper:
  "gloo_Endpoints (H\<lparr>getTargetsFromTargetAnnotation := g\<rparr>) gs = gloo_Endpoints H gs"
proof -
  have a: "gloo_vhostEndpoints (H\<lparr>getTargetsFromTargetAnnotation := g\<rparr>) = gloo_vhostEndpoints H"
    by (simp add: fun_eq_iff gloo_vhostEndpoints_def Let_def split: sum.splits option.splits)
  have b: "gloo_resourceEndpoints (H\<lparr>getTargetsFromTargetAnnotation := g\<rparr>) = gloo_resourceEndpoints H"
    unfolding fun_eq_iff gloo_resourceEndpoints_def endpointsFromProxy_def a by simp
  show ?thesis unfolding gloo_Endpoints_def b by (rule refl)
qed

lemma kong_native_targets:
  assumes "kong_resourceEndpoints (specHelpers parseTTL parseIP ps) ksc ti = Inr eps" "ep \<in> set eps"
  shows "Targets ep = ingressTargets (ti_Ingress ti)"
  using assms
  by (auto simp: kong_resourceEndpoints_def endpointsFromTCPIngress_def kong_setResourceLabel_def
        setDualstackLabel_def Let_def specHelpers_sel spec_endpointsForHostname_def
      split: if_splits sum.splits option.splits)

lemma amb_native_targets:
  assumes "amb_resourceEndpoints (specHelpers parseTTL parseIP ps) asc host = (Inr eps, cs)" "ep \<in> set eps"
  shows "\<exists>ns name svc. amb_kubeClient asc ns name = Inr svc \<and> Targets ep = ingressTargets (svc_Ingress svc)"
  using assms
  by (auto simp: amb_resourceEndpoints_def targetsFromAmbassadorLoadBalancer_def endpointsFromHost_def
        specHelpers_sel spec_endpointsForHostname_def
      split: if_splits sum.splits option.splits prod.splits; blast)

lemma gloo_native_targets:
  assumes r: "gloo_resourceEndpoints (specHelpers parseTTL parseIP ps) gs p = Inr eps" and m: "ep \<in> set eps"
  shows "\<exists>svc. gloo_kubeClient gs (gloo_namespace gs) (Name p) = Inr svc
           \<and> Targets ep = ingressTargets (svc_Ingress svc)"
proof -
  let ?S = "specHelpers parseTTL parseIP ps"
  from r obtain targets where t: "proxyTargets gs (Name p) = Inr targets"
    and c: "collect (gloo_vhostEndpoints ?S gs targets) (concat (Listeners p)) [] = Inr eps"
    by (auto simp: gloo_resourceEndpoints_def endpointsFromProxy_def split: sum.splits)
  from collect_Inr_mem [OF c m] obtain vhost es where
    v: "gloo_vhostEndpoints ?S gs targets vhost = Inr es" and e: "ep \<in> set es" by blast
  from v e have T: "Targets ep = targets" and ne: "targets \<noteq> []"
    by (auto simp: gloo_vhostEndpoints_def Let_def specHelpers_sel spec_endpointsForHostname_def
        split: sum.splits option.splits if_splits)
  from t ne obtain svc where "gloo_kubeClient gs (gloo_namespace gs) (Name p) = Inr svc"
    and "targets = ingressTargets (svc_Ingress svc)"
    by (auto simp: proxyTargets_def split: sum.splits if_splits)
  with T show ?thesis by blast
qed

text \<open>
  C1, amended: when the target annotation of an HTTPProxy or of an IngressRoute gives a
  non-empty list, that list is the target list of the resource, and neither the
  load-balancer status of the HTTPProxy nor the service looked up for the IngressRoute has
  any part in its targets or in its endpoints.  With the helpers as the specification
  describes them, the list is the value of the annotation split at its commas; with the
  annotation \<open>1.2.3.4\<close> the resource has one endpoint for each of its hostnames, each
  with the targets \<open>[1.2.3.4]\<close> and the record type \<open>A\<close>.  The Kong, Ambassador and Gloo
  sources never call the helper that reads the target annotation: the targets of their
  endpoints are those of the load-balancer status of the TCPIngress or of the service.
\<close>

theorem C1_target_annotation_overrides:
  "(getTargetsFromTargetAnnotation H (Annotations hp) \<noteq> [] \<longrightarrow>
      hp_targets H hp = getTargetsFromTargetAnnotation H (Annotations hp)
      \<and> (\<forall>ingress. hp_targets H (hp\<lparr>hp_Ingress := ingress\<rparr>) = hp_targets H hp
            \<and> hp_endpointsFromHTTPProxy H hsc (hp\<lparr>hp_Ingress := ingress\<rparr>)
                = hp_endpointsFromHTTPProxy H hsc hp))
   \<and> (getTargetsFromTargetAnnotation H (Annotations rt) \<noteq> [] \<longrightarrow>
      ir_targets H isc rt = Inr (getTargetsFromTargetAnnotation H (Annotations rt))
      \<and> (\<forall>lookup. ir_targets H (isc\<lparr>ir_serviceInformer := lookup\<rparr>) rt = ir_targets H isc rt
            \<and> endpointsFromIngressRoute H (isc\<lparr>ir_serviceInformer := lookup\<rparr>) rt
                = endpointsFromIngressRoute H isc rt
            \<and> (\<forall>tmpl. ir_endpointsFromTemplate H (isc\<lparr>ir_serviceInformer := lookup\<rparr>) tmpl rt
                = ir_endpointsFromTemplate H isc tmpl rt)))
   \<and> (\<forall>v. Annotations hp targetAnnotationKey = Some v \<and> v \<noteq> [] \<longrightarrow>
        hp_targets (specHelpers parseTTL parseIP ps) hp = strings_Split CHR '','' v)
   \<and> (\<forall>v. Annotations rt targetAnnotationKey = Some v \<and> v \<noteq> [] \<longrightarrow>
        ir_targets (specHelpers parseTTL parseIP ps) isc rt = Inr (strings_Split CHR '','' v))
   \<and> (Annotations hp targetAnnotationKey = Some ''1.2.3.4'' \<and> parseIP ''1.2.3.4'' = Some IPv4 \<longrightarrow>
        hp_targets (specHelpers parseTTL parseIP ps) hp = [''1.2.3.4'']
        \<and> (\<exists>eps. hp_endpointsFromHTTPProxy (specHelpers parseTTL parseIP ps) hsc hp = Inr eps
              \<and> (\<forall>ep\<in>set eps. Targets ep = [''1.2.3.4''] \<and> RecordType ep = RecordTypeA)
              \<and> (hp_CurrentStatus hp = ''valid'' \<longrightarrow>
                   map DNSName eps = map TrimSuffixDot
                     ((case hp_VirtualHost hp of None \<Rightarrow> [] | Some fqdn \<Rightarrow> if fqdn \<noteq> [] then [fqdn] else [])
                      @ (if hp_ignoreHostnameAnnotation hsc then []
                         else getHostnamesFromAnnotations (specHelpers parseTTL parseIP ps) (Annotations hp)))))
        \<and> (\<forall>tmpl hostnames. tmpl hp = Inr hostnames \<longrightarrow>
              (\<exists>eps. hp_endpointsFromTemplate (specHelpers parseTTL parseIP ps) tmpl hp = Inr eps
                 \<and> (\<forall>ep\<in>set eps. Targets ep = [''1.2.3.4''] \<and> RecordType ep = RecordTypeA)
                 \<and> map DNSName eps = map TrimSuffixDot
                      (map TrimSuffixDot (strings_Split CHR '','' (RemoveSpaces hostnames))))))
   \<and> (Annotations rt targetAnnotationKey = Some ''1.2.3.4'' \<and> parseIP ''1.2.3.4'' = Some IPv4 \<longrightarrow>
        ir_targets (specHelpers parseTTL parseIP ps) isc rt = Inr [''1.2.3.4'']
        \<and> (\<exists>eps. endpointsFromIngressRoute (specHelpers parseTTL parseIP ps) isc rt = Inr eps
              \<and> (\<forall>ep\<in>set eps. Targets ep = [''1.2.3.4''] \<and> RecordType ep = RecordTypeA)
              \<and> (ir_CurrentStatus rt = ''valid'' \<longrightarrow>
                   map DNSName eps = map TrimSuffixDot
                     ((case ir_VirtualHost rt of None \<Rightarrow> [] | Some fqdn \<Rightarrow> if fqdn \<noteq> [] then [fqdn] else [])
                      @ (if ir_ignoreHostnameAnnotation isc then []
                         else getHostnamesFromAnnotations (specHelpers parseTTL parseIP ps) (Annotations rt)))))
        \<and> (\<forall>tmpl hostnames. tmpl rt = Inr hostnames \<longrightarrow>
              (\<exists>eps. ir_endpointsFromTemplate (specHelpers parseTTL parseIP ps) isc tmpl rt = Inr eps
                 \<and> (\<forall>ep\<in>set eps. Targets ep = [''1.2.3.4''] \<and> RecordType ep = RecordTypeA)
                 \<and> map DNSName eps = map TrimSuffixDot
                      (map TrimSuffixDot (strings_Split CHR '','' (RemoveSpaces hostnames))))))
   \<and> kong_Endpoints (H\<lparr>getTargetsFromTargetAnnotation := g\<rparr>) ksc = kong_Endpoints H ksc
   \<and> amb_Endpoints (H\<lparr>getTargetsFromTargetAnnotation := g\<rparr>) asc = amb_Endpoints H asc
   \<and> gloo_Endpoints (H\<lparr>getTargetsFromTargetAnnotation := g\<rparr>) gs = gloo_Endpoints H gs
   \<and> (\<forall>eps. kong_resourceEndpoints (specHelpers parseTTL parseIP ps) ksc ti = Inr eps \<longrightarrow>
        (\<forall>ep\<in>set eps. Targets ep = ingressTargets (ti_Ingress ti)))
   \<and> (\<forall>eps cs. amb_resourceEndpoints (specHelpers parseTTL parseIP ps) asc host = (Inr eps, cs) \<longrightarrow>
        (\<forall>ep\<in>set eps. \<exists>ns name svc. amb_kubeClient asc ns name = Inr svc
            \<and> Targets ep = ingressTargets (svc_Ingress svc)))
   \<and> (\<forall>eps. gloo_resourceEndpoints (specHelpers parseTTL parseIP ps) gs p = Inr eps \<longrightarrow>
        (\<forall>ep\<in>set eps. \<exists>svc. gloo_kubeClient gs (gloo_namespace gs) (Name p) = Inr svc
            \<and> Targets ep = ingressTargets (svc_Ingress svc)))"
  apply (intro conjI)
             apply (rule impI, erule hp_override)
            apply (rule impI, erule ir_override)
           apply (intro allI impI, elim conjE, erule (1) hp_override_value)
          apply (intro allI impI, elim conjE, erule (1) ir_override_value)
         apply (rule impI, elim conjE, erule (1) hp_override_1234)
        apply (rule impI, elim conjE, erule (1) ir_override_1234)
       apply (rule kong_ignores_target_helper)
      apply (rule amb_ignores_target_helper)
     apply (rule gloo_ignores_target_helper)
    apply (intro allI impI ballI, erule (1) kong_native_targets)
   apply (intro allI impI ballI, erule (1) amb_native_targets)
  apply (intro allI impI ballI, erule (1) gloo_native_targets)
  done

text \<open>
  C1 at an HTTPProxy with the annotation \<open>1.2.3.4\<close> and the load-balancer address
  \<open>8.8.8.8\<close>, at an IngressRoute with the same annotation whose Contour service has the
  address \<open>8.8.8.8\<close>, and at a Kong TCPIngress.
\<close>

theorem C1_witness:
  "getTargetsFromTargetAnnotation exampleHelpers (Annotations ex_httpProxy) = [''1.2.3.4'']
   \<and> Annotations ex_httpProxy targetAnnotationKey = Some ''1.2.3.4''
   \<and> dottedQuad ''1.2.3.4'' = Some IPv4
   \<and> hp_Ingress ex_httpProxy = [\<lparr>IP = ''8.8.8.8'', Hostname = []\<rparr>]
   \<and> hp_targets exampleHelpers ex_httpProxy = [''1.2.3.4'']
   \<and> hp_targets exampleHelpers (ex_httpProxy\<lparr>hp_Ingress := []\<rparr>) = hp_targets exampleHelpers ex_httpProxy
   \<and> hp_endpointsFromHTTPProxy exampleHelpers (ex_httpProxySource [ex_httpProxy]) ex_httpProxy
       = Inr [ex_overrideEndpoint]
   \<and> Targets ex_overrideEndpoint = [''1.2.3.4'']
   \<and> RecordType ex_overrideEndpoint = RecordTypeA
   \<and> Annotations ex_targetRoute targetAnnotationKey = Some ''1.2.3.4''
   \<and> targetsFromContourLoadBalancer (ex_servedRouteSource [ex_route, ex_targetRoute]) = Inr [''8.8.8.8'']
   \<and> ir_targets exampleHelpers (ex_servedRouteSource [ex_route, ex_targetRoute]) ex_route = Inr [''8.8.8.8'']
   \<and> ir_targets exampleHelpers (ex_servedRouteSource [ex_route, ex_targetRoute]) ex_targetRoute
       = Inr [''1.2.3.4'']
   \<and> endpointsFromIngressRoute exampleHelpers (ex_servedRouteSource [ex_route, ex_targetRoute]) ex_targetRoute
       = Inr [ex_overrideEndpoint]
   \<and> kong_resourceEndpoints exampleHelpers (ex_kongSource [ex_targetIngress]) ex_targetIngress =
       Inr [(ex_cnameEndpoint ''a.example.com'')\<lparr>Labels :=
              [ResourceLabelKey \<mapsto> ''tcpingress/kong/tcp-ingress-target'']\<rparr>]
   \<and> Targets ((ex_cnameEndpoint ''a.example.com'')\<lparr>Labels :=
              [ResourceLabelKey \<mapsto> ''tcpingress/kong/tcp-ingress-target'']\<rparr>)
       = ingressTargets (ti_Ingress ex_targetIngress)"
proof -
  let ?isc = "ex_servedRouteSource [ex_route, ex_targetRoute]"
  let ?ksc = "ex_kongSource [ex_targetIngress]"
  let ?kep = "(ex_cnameEndpoint ''a.example.com'')\<lparr>Labels :=
              [ResourceLabelKey \<mapsto> ''tcpingress/kong/tcp-ingress-target'']\<rparr>"
  have g: "getTargetsFromTargetAnnotation exampleHelpers (Annotations ex_httpProxy) = [''1.2.3.4'']"
    by (simp add: helper_defs key_defs ex_httpProxy_def)
  then have g': "getTargetsFromTargetAnnotation exampleHelpers (Annotations ex_httpProxy) \<noteq> []" by simp
  have k: "Annotations ex_httpProxy targetAnnotationKey = Some ''1.2.3.4''"
    by (simp add: ex_httpProxy_def)
  have r: "Annotations ex_targetRoute targetAnnotationKey = Some ''1.2.3.4''"
    by (simp add: ex_targetRoute_def)
  have p: "dottedQuad ''1.2.3.4'' = Some IPv4"
    by (simp add: helper_defs string_defs)
  have i: "hp_Ingress ex_httpProxy = [\<lparr>IP = ''8.8.8.8'', Hostname = []\<rparr>]"
    by (simp add: ex_httpProxy_def)
  have e: "specHelpers decimalSeconds dottedQuad (\<lambda>annotations. []) = exampleHelpers"
    by (simp add: exampleHelpers_def)
  note c = C1_target_annotation_overrides [where H = exampleHelpers and hp = ex_httpProxy
      and parseIP = dottedQuad and parseTTL = decimalSeconds and ps = "\<lambda>annotations. []"
      and hsc = "ex_httpProxySource [ex_httpProxy]" and rt = ex_targetRoute
      and isc = ?isc and ksc = ?ksc and ti = ex_targetIngress, unfolded e]
  note c1 = c [THEN conjunct1, THEN mp, OF g']
  note c5 = c [THEN conjunct2, THEN conjunct2, THEN conjunct2, THEN conjunct2, THEN conjunct1,
      THEN mp, OF conjI, OF k p]
  note c6 = c [THEN conjunct2, THEN conjunct2, THEN conjunct2, THEN conjunct2, THEN conjunct2,
      THEN conjunct1, THEN mp, OF conjI, OF r p]
  note c10 = c [THEN conjunct2, THEN conjunct2, THEN conjunct2, THEN conjunct2, THEN conjunct2,
      THEN conjunct2, THEN conjunct2, THEN conjunct2, THEN conjunct2, THEN conjunct1,
      THEN spec, THEN mp, OF ex_target_ingress_resource]
  from c1 g have t: "hp_targets exampleHelpers ex_httpProxy = [''1.2.3.4'']"
    and u: "hp_targets exampleHelpers (ex_httpProxy\<lparr>hp_Ingress := []\<rparr>) = hp_targets exampleHelpers ex_httpProxy"
    by simp_all
  from c5 [THEN conjunct2, THEN conjunct1] ex_override_eval [of "[ex_httpProxy]"]
  have f: "Targets ex_overrideEndpoint = [''1.2.3.4'']" "RecordType ex_overrideEndpoint = RecordTypeA"
    by simp_all
  from c6 [THEN conjunct1]
  have n: "ir_targets exampleHelpers ?isc ex_targetRoute = Inr [''1.2.3.4'']" .
  from c10 have q: "Targets ?kep = ingressTargets (ti_Ingress ex_targetIngress)"
    by simp
  from g k p i t u f r n q ex_override_eval [of "[ex_httpProxy]"]
    ex_served_route_native [of "[ex_route, ex_targetRoute]"]
    ex_served_route_plain [of "[ex_route, ex_targetRoute]"]
    ex_served_route_eval [of "[ex_route, ex_targetRoute]"]
    ex_target_ingress_resource [of "[ex_targetIngress]"]
  show ?thesis by blast
qed

text \<open>
  C1 fails for the Kong source: a TCPIngress with the target annotation \<open>1.2.3.4\<close> yields
  an endpoint with the target \<open>lb.example.com\<close> of its load-balancer status and the record
  type \<open>CNAME\<close>.
\<close>

theorem C1_counterexample:
  "Annotations ex_targetIngress targetAnnotationKey = Some ''1.2.3.4''
   \<and> getTargetsFromTargetAnnotation exampleHelpers (Annotations ex_targetIngress) = [''1.2.3.4'']
   \<and> ingressTargets (ti_Ingress ex_targetIngress) = [''lb.example.com'']
   \<and> kong_Endpoints exampleHelpers (ex_kongSource [ex_targetIngress]) =
       Inr [(ex_cnameEndpoint ''a.example.com'')\<lparr>Labels :=
              [ResourceLabelKey \<mapsto> ''tcpingress/kong/tcp-ingress-target'']\<rparr>]
   \<and> Targets ((ex_cnameEndpoint ''a.example.com'')\<lparr>Labels :=
              [ResourceLabelKey \<mapsto> ''tcpingress/kong/tcp-ingress-target'']\<rparr>) = [''lb.example.com'']
   \<and> RecordType ((ex_cnameEndpoint ''a.example.com'')\<lparr>Labels :=
              [ResourceLabelKey \<mapsto> ''tcpingress/kong/tcp-ingress-target'']\<rparr>) = RecordTypeCNAME"
proof -
  have "Annotations ex_targetIngress targetAnnotationKey = Some ''1.2.3.4''"
    by (simp add: ex_targetIngress_def key_defs)
  moreover have "ingressTargets (ti_Ingress ex_targetIngress) = [''lb.example.com'']"
    by (simp add: ex_targetIngress_def ingressTargets_def lbTargets_def)
  moreover have "Targets ((ex_cnameEndpoint ''a.example.com'')\<lparr>Labels :=
              [ResourceLabelKey \<mapsto> ''tcpingress/kong/tcp-ingress-target'']\<rparr>) = [''lb.example.com'']"
    "RecordType ((ex_cnameEndpoint ''a.example.com'')\<lparr>Labels :=
              [ResourceLabelKey \<mapsto> ''tcpingress/kong/tcp-ingress-target'']\<rparr>) = RecordTypeCNAME"
    by (simp_all add: ex_cnameEndpoint_def)
  ultimately show ?thesis using ex_target_ingress_eval ex_target_ingress_targets by blast
qed

section \<open>The template and the combine flag\<close>



section \<open>A service that is not found\<close>

lemma amb_lookup_fails:
  assumes "Annotations host ambHostAnnotation = Some service"
    and "parseAmbLoadBalancerService service = Inr (ns, name)"
    and "amb_kubeClient sc ns name = Inl err"
  shows "amb_resourceEndpoints H sc host = (Inl err, [(ns, name)])"
  using assms by (simp add: amb_resourceEndpoints_def targetsFromAmbassadorLoadBalancer_def)

lemma gloo_lookup_fails:
  "gloo_kubeClient gs (gloo_namespace gs) (Name p) = Inl err \<Longrightarrow> gloo_resourceEndpoints H gs p = Inl err"
  by (simp add: gloo_resourceEndpoints_def proxyTargets_def)

text \<open>
  C3, amended: when the lookup of the configured Contour service fails, the targets it
  gives are empty and nothing is returned as an error; a pass of the IngressRoute source
  whose lister and templates succeed returns the endpoints of every resource.  In the
  Ambassador and in the Gloo source the error of a failed lookup is the error of the pass.
\<close>

theorem C3_lookup_failure:
  "(ir_serviceInformer isc (fst (ir_lbService isc)) (snd (ir_lbService isc)) = Inl err \<longrightarrow>
      targetsFromContourLoadBalancer isc = Inr []
      \<and> (getTargetsFromTargetAnnotation H (Annotations rt) = [] \<longrightarrow> ir_targets H isc rt = Inr []))
   \<and> (ir_ingressRouteInformer isc (ir_namespace isc) = Inr rts
        \<and> (\<forall>r\<in>set rts. \<forall>tmpl. ir_fqdnTemplate isc = Some tmpl \<longrightarrow> \<not> isl (tmpl r)) \<longrightarrow>
      (\<exists>endpoints. ir_Endpoints H isc = Inr endpoints
         \<and> (\<forall>r\<in>set rts. \<forall>es. ir_resourceEndpoints H isc r = Inr es \<longrightarrow>
               sortTargets ` set es \<subseteq> set endpoints)))
   \<and> (amb_hostInformer asc (amb_namespace asc) = Inr hosts \<and> host \<in> set hosts
        \<and> Annotations host ambHostAnnotation = Some service
        \<and> parseAmbLoadBalancerService service = Inr (ns, name)
        \<and> amb_kubeClient asc ns name = Inl err \<longrightarrow>
      isl (fst (amb_Endpoints H asc)))
   \<and> (gloo_proxyInformer gs (gloo_namespace gs) = Inr proxies \<and> p \<in> set proxies
        \<and> gloo_kubeClient gs (gloo_namespace gs) (Name p) = Inl err \<longrightarrow>
      isl (gloo_Endpoints H gs))"
proof -
  have a: "ir_serviceInformer isc (fst (ir_lbService isc)) (snd (ir_lbService isc)) = Inl err \<longrightarrow>
      targetsFromContourLoadBalancer isc = Inr []
      \<and> (getTargetsFromTargetAnnotation H (Annotations rt) = [] \<longrightarrow> ir_targets H isc rt = Inr [])"
    by (simp add: targetsFromContourLoadBalancer_def ir_targets_def)
  have b: "ir_ingressRouteInformer isc (ir_namespace isc) = Inr rts
        \<and> (\<forall>r\<in>set rts. \<forall>tmpl. ir_fqdnTemplate isc = Some tmpl \<longrightarrow> \<not> isl (tmpl r)) \<longrightarrow>
      (\<exists>endpoints. ir_Endpoints H isc = Inr endpoints
         \<and> (\<forall>r\<in>set rts. \<forall>es. ir_resourceEndpoints H isc r = Inr es \<longrightarrow>
               sortTargets ` set es \<subseteq> set endpoints))"
    using ir_pass_total [of isc rts H] by blast
  have c: "isl (fst (amb_Endpoints H asc))"
    if l: "amb_hostInformer asc (amb_namespace asc) = Inr hosts" and m: "host \<in> set hosts"
      and s: "Annotations host ambHostAnnotation = Some service"
      and q: "parseAmbLoadBalancerService service = Inr (ns, name)"
      and k: "amb_kubeClient asc ns name = Inl err"
  proof -
    from amb_lookup_fails [OF s q k] have "isl (fst (amb_resourceEndpoints H asc host))" by simp
    with m have "isl (fst (collectCalls (amb_resourceEndpoints H asc) hosts [] []))"
      by (rule collectCalls_fails)
    with l show ?thesis by (auto simp: amb_Endpoints_def split: prod.splits sum.splits)
  qed
  have d: "isl (gloo_Endpoints H gs)"
    if l: "gloo_proxyInformer gs (gloo_namespace gs) = Inr proxies" and m: "p \<in> set proxies"
      and k: "gloo_kubeClient gs (gloo_namespace gs) (Name p) = Inl err"
  proof -
    from gloo_lookup_fails [OF k] have "isl (gloo_resourceEndpoints H gs p)" by simp
    with m have "isl (collect (gloo_resourceEndpoints H gs) proxies [])"
      by (rule collect_fails)
    with l show ?thesis by (simp add: gloo_Endpoints_def)
  qed
  from a b c d show ?thesis by blast
qed

text \<open>
  C3 at an IngressRoute source whose service is not found, and at an Ambassador and a Gloo
  source whose services are not found.
\<close>

theorem C3_witness:
  "ir_serviceInformer (ex_ingressRouteSource [ex_route, ex_targetRoute])
       (fst (ir_lbService (ex_ingressRouteSource [ex_route, ex_targetRoute])))
       (snd (ir_lbService (ex_ingressRouteSource [ex_route, ex_targetRoute])))
     = Inl (GetError ''heptio-contour'' ''contour'')
   \<and> targetsFromContourLoadBalancer (ex_ingressRouteSource [ex_route, ex_targetRoute]) = Inr []
   \<and> ir_targets exampleHelpers (ex_ingressRouteSource [ex_route, ex_targetRoute]) ex_route = Inr []
   \<and> ir_fqdnTemplate (ex_ingressRouteSource [ex_route, ex_targetRoute]) = None
   \<and> \<not> isl (ir_Endpoints exampleHelpers (ex_ingressRouteSource [ex_route, ex_targetRoute]))
   \<and> ir_Endpoints exampleHelpers (ex_ingressRouteSource [ex_route, ex_targetRoute]) = Inr [ex_routeEndpoint]
   \<and> Annotations ex_missingHost ambHostAnnotation = Some ''ns1/svc1''
   \<and> parseAmbLoadBalancerService ''ns1/svc1'' = Inr (''ns1'', ''svc1'')
   \<and> amb_kubeClient (ex_ambassadorSource [ex_missingHost, ex_servedHost]) ''ns1'' ''svc1''
       = Inl (GetError ''ns1'' ''svc1'')
   \<and> isl (fst (amb_Endpoints exampleHelpers (ex_ambassadorSource [ex_missingHost, ex_servedHost])))
   \<and> gloo_kubeClient (ex_glooSource\<lparr>gloo_proxyInformer := \<lambda>ns. Inr [ex_orphanProxy]\<rparr>)
         ''gloo-system'' ''external'' = Inl (GetError ''gloo-system'' ''external'')
   \<and> isl (gloo_Endpoints exampleHelpers (ex_glooSource\<lparr>gloo_proxyInformer := \<lambda>ns. Inr [ex_orphanProxy]\<rparr>))"
proof -
  let ?sc = "ex_ingressRouteSource [ex_route, ex_targetRoute]"
  let ?asc = "ex_ambassadorSource [ex_missingHost, ex_servedHost]"
  let ?gs = "ex_glooSource\<lparr>gloo_proxyInformer := \<lambda>ns. Inr [ex_orphanProxy]\<rparr>"
  have l: "ir_serviceInformer ?sc (fst (ir_lbService ?sc)) (snd (ir_lbService ?sc))
     = Inl (GetError ''heptio-contour'' ''contour'')"
    and i: "ir_ingressRouteInformer ?sc (ir_namespace ?sc) = Inr [ex_route, ex_targetRoute]"
    and n: "ir_fqdnTemplate ?sc = None"
    by (simp_all add: ex_ingressRouteSource_def)
  have g: "getTargetsFromTargetAnnotation exampleHelpers (Annotations ex_route) = []"
    by (simp add: helper_defs ex_route_def)
  have a: "Annotations ex_missingHost ambHostAnnotation = Some ''ns1/svc1''"
    and q: "parseAmbLoadBalancerService ''ns1/svc1'' = Inr (''ns1'', ''svc1'')"
    and k: "amb_kubeClient ?asc ''ns1'' ''svc1'' = Inl (GetError ''ns1'' ''svc1'')"
    and h: "amb_hostInformer ?asc (amb_namespace ?asc) = Inr [ex_missingHost, ex_servedHost]"
    by (simp_all add: ex_missingHost_def ex_ambassadorSource_def parseAmbLoadBalancerService_def)
  have x: "gloo_kubeClient ?gs ''gloo-system'' ''external'' = Inl (GetError ''gloo-system'' ''external'')"
    and y: "gloo_proxyInformer ?gs (gloo_namespace ?gs) = Inr [ex_orphanProxy]"
    and z: "gloo_namespace ?gs = ''gloo-system''" "Name ex_orphanProxy = ''external''"
    by (simp_all add: ex_glooSource_def ex_orphanProxy_def)
  note c = C3_lookup_failure [where isc = ?sc and H = exampleHelpers and rt = ex_route
      and rts = "[ex_route, ex_targetRoute]" and asc = ?asc and hosts = "[ex_missingHost, ex_servedHost]"
      and host = ex_missingHost and service = "''ns1/svc1''" and ns = "''ns1''" and name = "''svc1''"
      and gs = ?gs and proxies = "[ex_orphanProxy]" and p = ex_orphanProxy]
  from c [where err = "GetError ''heptio-contour'' ''contour''"] l g
  have one: "targetsFromContourLoadBalancer ?sc = Inr []" "ir_targets exampleHelpers ?sc ex_route = Inr []"
    by simp_all
  from c [where err = "GetError ''heptio-contour'' ''contour''"] i n
  have two: "\<not> isl (ir_Endpoints exampleHelpers ?sc)" by auto
  from c [where err = "GetError ''ns1'' ''svc1''"] h a q k
  have three: "isl (fst (amb_Endpoints exampleHelpers ?asc))" by simp
  from c [where err = "GetError ''gloo-system'' ''external''"] x y z
  have four: "isl (gloo_Endpoints exampleHelpers ?gs)" by simp
  from l n one two three four a q k x ex_route_eval show ?thesis by blast
qed

text \<open>
  C3 fails for the Ambassador source: the reference \<open>ns1/svc1\<close> parses, the service is not
  found, and the pass returns the error although the next Host has a service.
\<close>

theorem C3_counterexample:
  "Annotations ex_missingHost ambHostAnnotation = Some ''ns1/svc1''
   \<and> parseAmbLoadBalancerService ''ns1/svc1'' = Inr (''ns1'', ''svc1'')
   \<and> amb_kubeClient (ex_ambassadorSource [ex_missingHost, ex_servedHost]) ''ns1'' ''svc1''
       = Inl (GetError ''ns1'' ''svc1'')
   \<and> amb_Endpoints exampleHelpers (ex_ambassadorSource [ex_missingHost, ex_servedHost])
       = (Inl (GetError ''ns1'' ''svc1''), [(''ns1'', ''svc1'')])"
  using ex_missing_eval
  by (simp add: ex_missingHost_def ex_ambassadorSource_def parseAmbLoadBalancerService_def)

section \<open>The TTL annotation\<close>
























section \<open>Sorted targets\<close>

text \<open>
  C6, amended: every endpoint returned by a successful pass of the HTTPProxy, IngressRoute,
  Kong TCPIngress or Ambassador Host source has a sorted target list.
\<close>

theorem C6_targets_sorted:
  "(hp_Endpoints H hsc = Inr eps \<longrightarrow> (\<forall>ep\<in>set eps. sorted (Targets ep)))
   \<and> (ir_Endpoints H isc = Inr eps \<longrightarrow> (\<forall>ep\<in>set eps. sorted (Targets ep)))
   \<and> (kong_Endpoints H ksc = Inr eps \<longrightarrow> (\<forall>ep\<in>set eps. sorted (Targets ep)))
   \<and> (fst (amb_Endpoints H asc) = Inr eps \<longrightarrow> (\<forall>ep\<in>set eps. sorted (Targets ep)))"
proof -
  have hp: "hp_Endpoints H hsc = Inr eps \<longrightarrow> (\<forall>ep\<in>set eps. sorted (Targets ep))"
    by (auto simp: hp_Endpoints_def sorted_sortTargets split: sum.splits)
  have ir: "ir_Endpoints H isc = Inr eps \<longrightarrow> (\<forall>ep\<in>set eps. sorted (Targets ep))"
    by (auto simp: ir_Endpoints_def sorted_sortTargets split: sum.splits)
  have kong: "kong_Endpoints H ksc = Inr eps \<longrightarrow> (\<forall>ep\<in>set eps. sorted (Targets ep))"
    by (auto simp: kong_Endpoints_def sorted_sortTargets split: sum.splits)
  have amb: "fst (amb_Endpoints H asc) = Inr eps \<longrightarrow> (\<forall>ep\<in>set eps. sorted (Targets ep))"
    by (auto simp: amb_Endpoints_def sorted_sortTargets split: sum.splits prod.splits)
  from hp ir kong amb show ?thesis by blast
qed

text \<open>
  C6 at an HTTPProxy whose load-balancer status lists \<open>8.8.8.8\<close> before \<open>127.0.0.1\<close>, and at
  a pass of the IngressRoute, of the Kong and of the Ambassador source.
\<close>

theorem C6_witness:
  "hp_Endpoints exampleHelpers (ex_httpProxySource [ex_unsortedProxy]) = Inr [ex_sortedEndpoint]
   \<and> ingressTargets (hp_Ingress ex_unsortedProxy) = [''8.8.8.8'', ''127.0.0.1'']
   \<and> Targets ex_sortedEndpoint = [''127.0.0.1'', ''8.8.8.8'']
   \<and> sorted (Targets ex_sortedEndpoint)
   \<and> ir_Endpoints exampleHelpers (ex_ingressRouteSource [ex_route, ex_targetRoute]) = Inr [ex_routeEndpoint]
   \<and> sorted (Targets ex_routeEndpoint)
   \<and> kong_Endpoints exampleHelpers (ex_kongSource [ex_bothIngress]) =
       Inr [ex_kongEndpoint ''d.example.com'', ex_kongEndpoint ''e.example.com'',
            ex_kongEndpoint ''f.example.com'']
   \<and> sorted (Targets (ex_kongEndpoint ''d.example.com''))
   \<and> fst (amb_Endpoints exampleHelpers (ex_ambassadorSource [ex_servedHost])) = Inr [ex_servedEndpoint]
   \<and> sorted (Targets ex_servedEndpoint)"
proof -
  have a: "ingressTargets (hp_Ingress ex_unsortedProxy) = [''8.8.8.8'', ''127.0.0.1'']"
    and b: "Targets ex_sortedEndpoint = [''127.0.0.1'', ''8.8.8.8'']"
    by (simp_all add: ex_unsortedProxy_def ex_sortedEndpoint_def helper_defs)
  have s: "fst (amb_Endpoints exampleHelpers (ex_ambassadorSource [ex_servedHost])) = Inr [ex_servedEndpoint]"
    using ex_served_eval by simp
  from C6_targets_sorted [where H = exampleHelpers and hsc = "ex_httpProxySource [ex_unsortedProxy]"
      and eps = "[ex_sortedEndpoint]"] ex_unsorted_eval
  have one: "sorted (Targets ex_sortedEndpoint)" by simp
  from C6_targets_sorted [where H = exampleHelpers and isc = "ex_ingressRouteSource [ex_route, ex_targetRoute]"
      and eps = "[ex_routeEndpoint]"] ex_route_eval
  have two: "sorted (Targets ex_routeEndpoint)" by simp
  from C6_targets_sorted [where H = exampleHelpers and ksc = "ex_kongSource [ex_bothIngress]"
      and eps = "[ex_kongEndpoint ''d.example.com'', ex_kongEndpoint ''e.example.com'',
            ex_kongEndpoint ''f.example.com'']"] ex_kong_both_eval
  have three: "sorted (Targets (ex_kongEndpoint ''d.example.com''))" by simp
  from C6_targets_sorted [where H = exampleHelpers and asc = "ex_ambassadorSource [ex_servedHost]"
      and eps = "[ex_servedEndpoint]"] s
  have four: "sorted (Targets ex_servedEndpoint)" by simp
  from a b s one two three four ex_unsorted_eval ex_route_eval ex_kong_both_eval show ?thesis by blast
qed

text \<open>
  C6 fails for the Gloo source, whose pass does not sort: the targets keep the order of the
  load-balancer status of the service.
\<close>

theorem C6_counterexample:
  "gloo_Endpoints exampleHelpers ex_glooSource = Inr [ex_glooEndpoint]
   \<and> Targets ex_glooEndpoint = [''203.0.113.2'', ''203.0.113.1'']
   \<and> \<not> sorted (Targets ex_glooEndpoint)"
  using ex_gloo_pass by (simp add: ex_glooEndpoint_def string_defs)

section \<open>The resource label\<close>

lemma hp_resource_label:
  "hp_resourceEndpoints H sc hp = Inr es \<Longrightarrow> e \<in> set es \<Longrightarrow>
   Labels e ResourceLabelKey = Some (''HTTPProxy/'' @ Namespace hp @ ''/'' @ Name hp)"
  by (auto simp: hp_resourceEndpoints_def hp_setResourceLabel_def split: if_splits sum.splits)

lemma ir_resource_label:
  "ir_resourceEndpoints H sc rt = Inr es \<Longrightarrow> e \<in> set es \<Longrightarrow>
   Labels e ResourceLabelKey = Some (''ingressroute/'' @ Namespace rt @ ''/'' @ Name rt)"
  by (auto simp: ir_resourceEndpoints_def ir_setResourceLabel_def split: if_splits sum.splits)

lemma kong_resource_label:
  "kong_resourceEndpoints H sc ti = Inr es \<Longrightarrow> e \<in> set es \<Longrightarrow>
   Labels e ResourceLabelKey = Some (''tcpingress/'' @ Namespace ti @ ''/'' @ Name ti)"
  by (auto simp: kong_resourceEndpoints_def kong_setResourceLabel_def setDualstackLabel_def
        ResourceLabelKey_def DualstackLabelKey_def
      split: if_splits sum.splits option.splits)

lemma gloo_vhost_mem:
  "gloo_vhostEndpoints H gs targets vhost = Inr es \<Longrightarrow> e \<in> set es \<Longrightarrow>
   \<exists>h t ttl ps sid. e \<in> set (endpointsForHostname H h t ttl ps sid)"
  by (auto simp: gloo_vhostEndpoints_def Let_def split: sum.splits option.splits; blast)

lemma gloo_resource_mem:
  assumes "gloo_resourceEndpoints H gs p = Inr es" "e \<in> set es"
  shows "\<exists>h t ttl ps sid. e \<in> set (endpointsForHostname H h t ttl ps sid)"
proof -
  from assms(1) obtain targets where
    "collect (gloo_vhostEndpoints H gs targets) (concat (Listeners p)) [] = Inr es"
    by (auto simp: gloo_resourceEndpoints_def endpointsFromProxy_def split: sum.splits)
  from collect_Inr_mem [OF this assms(2)] obtain vhost es' where
    "gloo_vhostEndpoints H gs targets vhost = Inr es'" "e \<in> set es'" by blast
  then show ?thesis by (rule gloo_vhost_mem)
qed

lemma amb_resource_mem:
  "amb_resourceEndpoints H sc host = (Inr es, c) \<Longrightarrow> e \<in> set es \<Longrightarrow>
   \<exists>h t ttl ps sid. e \<in> set (endpointsForHostname H h t ttl ps sid)"
  by (auto simp: amb_resourceEndpoints_def endpointsFromHost_def
      split: sum.splits option.splits prod.splits if_splits; blast)

text \<open>
  C7, amended: every endpoint returned by a pass of the HTTPProxy, IngressRoute or Kong
  TCPIngress source comes from a resource of the snapshot and carries, under the resource
  label key, \<open>HTTPProxy/\<close>, \<open>ingressroute/\<close> or \<open>tcpingress/\<close> followed by the namespace,
  \<open>/\<close> and the name of that resource.  The Gloo and the Ambassador source attach no label:
  their endpoints are the ones \<open>endpointsForHostname\<close> made, with sorted targets for
  Ambassador.
\<close>

theorem C7_resource_label:
  "(hp_httpProxyInformer hsc (hp_namespace hsc) = Inr hps \<and> hp_Endpoints H hsc = Inr eps \<longrightarrow>
      (\<forall>ep\<in>set eps. \<exists>hp\<in>set hps. \<exists>es. hp_resourceEndpoints H hsc hp = Inr es
          \<and> ep \<in> sortTargets ` set es
          \<and> Labels ep ResourceLabelKey = Some (''HTTPProxy/'' @ Namespace hp @ ''/'' @ Name hp)))
   \<and> (ir_ingressRouteInformer isc (ir_namespace isc) = Inr rts \<and> ir_Endpoints H isc = Inr eps \<longrightarrow>
      (\<forall>ep\<in>set eps. \<exists>rt\<in>set rts. \<exists>es. ir_resourceEndpoints H isc rt = Inr es
          \<and> ep \<in> sortTargets ` set es
          \<and> Labels ep ResourceLabelKey = Some (''ingressroute/'' @ Namespace rt @ ''/'' @ Name rt)))
   \<and> (kong_tcpIngressInformer ksc (kong_namespace ksc) = Inr tis \<and> kong_Endpoints H ksc = Inr eps \<longrightarrow>
      (\<forall>ep\<in>set eps. \<exists>ti\<in>set tis. \<exists>es. kong_resourceEndpoints H ksc ti = Inr es
          \<and> ep \<in> sortTargets ` set es
          \<and> Labels ep ResourceLabelKey = Some (''tcpingress/'' @ Namespace ti @ ''/'' @ Name ti)))
   \<and> (gloo_Endpoints H gs = Inr eps \<longrightarrow>
      (\<forall>ep\<in>set eps. \<exists>h t ttl ps sid. ep \<in> set (endpointsForHostname H h t ttl ps sid)))
   \<and> (fst (amb_Endpoints H asc) = Inr eps \<longrightarrow>
      (\<forall>ep\<in>set eps. \<exists>h t ttl ps sid. ep \<in> sortTargets ` set (endpointsForHostname H h t ttl ps sid)))"
proof (intro conjI impI ballI)
  fix ep
  assume a: "hp_httpProxyInformer hsc (hp_namespace hsc) = Inr hps \<and> hp_Endpoints H hsc = Inr eps"
    and m: "ep \<in> set eps"
  from a obtain endpoints where
    c: "collect (hp_resourceEndpoints H hsc) hps [] = Inr endpoints" "eps = map sortTargets endpoints"
    by (auto simp: hp_Endpoints_def split: sum.splits)
  from m c(2) have "ep \<in> set (map sortTargets endpoints)" by simp
  from pass_mem [OF c(1) this] obtain r es e where
    r: "r \<in> set hps" "hp_resourceEndpoints H hsc r = Inr es" "e \<in> set es" "ep = sortTargets e" by blast
  from hp_resource_label [OF r(2) r(3)] r(4)
  have "Labels ep ResourceLabelKey = Some (''HTTPProxy/'' @ Namespace r @ ''/'' @ Name r)"
    by (simp add: Labels_sortTargets)
  with r
  show "\<exists>hp\<in>set hps. \<exists>es. hp_resourceEndpoints H hsc hp = Inr es \<and> ep \<in> sortTargets ` set es
          \<and> Labels ep ResourceLabelKey = Some (''HTTPProxy/'' @ Namespace hp @ ''/'' @ Name hp)"
    by blast
next
  fix ep
  assume a: "ir_ingressRouteInformer isc (ir_namespace isc) = Inr rts \<and> ir_Endpoints H isc = Inr eps"
    and m: "ep \<in> set eps"
  from a obtain endpoints where
    c: "collect (ir_resourceEndpoints H isc) rts [] = Inr endpoints" "eps = map sortTargets endpoints"
    by (auto simp: ir_Endpoints_def split: sum.splits)
  from m c(2) have "ep \<in> set (map sortTargets endpoints)" by simp
  from pass_mem [OF c(1) this] obtain r es e where
    r: "r \<in> set rts" "ir_resourceEndpoints H isc r = Inr es" "e \<in> set es" "ep = sortTargets e" by blast
  from ir_resource_label [OF r(2) r(3)] r(4)
  have "Labels ep ResourceLabelKey = Some (''ingressroute/'' @ Namespace r @ ''/'' @ Name r)"
    by (simp add: Labels_sortTargets)
  with r
  show "\<exists>rt\<in>set rts. \<exists>es. ir_resourceEndpoints H isc rt = Inr es \<and> ep \<in> sortTargets ` set es
          \<and> Labels ep ResourceLabelKey = Some (''ingressroute/'' @ Namespace rt @ ''/'' @ Name rt)"
    by blast
next
  fix ep
  assume a: "kong_tcpIngressInformer ksc (kong_namespace ksc) = Inr tis \<and> kong_Endpoints H ksc = Inr eps"
    and m: "ep \<in> set eps"
  from a obtain endpoints where
    c: "collect (kong_resourceEndpoints H ksc) tis [] = Inr endpoints" "eps = map sortTargets endpoints"
    by (auto simp: kong_Endpoints_def split: sum.splits)
  from m c(2) have "ep \<in> set (map sortTargets endpoints)" by simp
  from pass_mem [OF c(1) this] obtain r es e where
    r: "r \<in> set tis" "kong_resourceEndpoints H ksc r = Inr es" "e \<in> set es" "ep = sortTargets e" by blast
  from kong_resource_label [OF r(2) r(3)] r(4)
  have "Labels ep ResourceLabelKey = Some (''tcpingress/'' @ Namespace r @ ''/'' @ Name r)"
    by (simp add: Labels_sortTargets)
  with r
  show "\<exists>ti\<in>set tis. \<exists>es. kong_resourceEndpoints H ksc ti = Inr es \<and> ep \<in> sortTargets ` set es
          \<and> Labels ep ResourceLabelKey = Some (''tcpingress/'' @ Namespace ti @ ''/'' @ Name ti)"
    by blast
next
  fix ep
  assume a: "gloo_Endpoints H gs = Inr eps" and m: "ep \<in> set eps"
  from a obtain proxies where "collect (gloo_resourceEndpoints H gs) proxies [] = Inr eps"
    by (auto simp: gloo_Endpoints_def split: sum.splits)
  from collect_Inr_mem [OF this m] obtain p es where
    "gloo_resourceEndpoints H gs p = Inr es" "ep \<in> set es" by blast
  then show "\<exists>h t ttl ps sid. ep \<in> set (endpointsForHostname H h t ttl ps sid)"
    by (rule gloo_resource_mem)
next
  fix ep
  assume a: "fst (amb_Endpoints H asc) = Inr eps" and m: "ep \<in> set eps"
  from a obtain hosts endpoints cs where
    c: "collectCalls (amb_resourceEndpoints H asc) hosts [] [] = (Inr endpoints, cs)"
       "eps = map sortTargets endpoints"
    by (auto simp: amb_Endpoints_def split: sum.splits prod.splits)
  from m c(2) obtain e where e: "e \<in> set endpoints" "ep = sortTargets e" by auto
  from collectCalls_Inr_mem [OF c(1) e(1)] obtain host es c' where
    "amb_resourceEndpoints H asc host = (Inr es, c')" "e \<in> set es" by auto
  from amb_resource_mem [OF this] e(2)
  show "\<exists>h t ttl ps sid. ep \<in> sortTargets ` set (endpointsForHostname H h t ttl ps sid)"
    by blast
qed

text \<open>
  C7 at the HTTPProxy \<open>default/proxy\<close>, the IngressRoute \<open>default/with-target\<close> and the
  TCPIngress \<open>kong/tcp-ingress-both\<close>.
\<close>

theorem C7_witness:
  "hp_httpProxyInformer (ex_httpProxySource [ex_unsortedProxy]) (hp_namespace (ex_httpProxySource [ex_unsortedProxy]))
     = Inr [ex_unsortedProxy]
   \<and> hp_Endpoints exampleHelpers (ex_httpProxySource [ex_unsortedProxy]) = Inr [ex_sortedEndpoint]
   \<and> Namespace ex_unsortedProxy = ''default'' \<and> Name ex_unsortedProxy = ''proxy''
   \<and> Labels ex_sortedEndpoint ResourceLabelKey = Some ''HTTPProxy/default/proxy''
   \<and> ir_Endpoints exampleHelpers (ex_ingressRouteSource [ex_targetRoute]) = Inr [ex_routeEndpoint]
   \<and> Namespace ex_targetRoute = ''default'' \<and> Name ex_targetRoute = ''with-target''
   \<and> Labels ex_routeEndpoint ResourceLabelKey = Some ''ingressroute/default/with-target''
   \<and> kong_Endpoints exampleHelpers (ex_kongSource [ex_bothIngress]) =
       Inr [ex_kongEndpoint ''d.example.com'', ex_kongEndpoint ''e.example.com'',
            ex_kongEndpoint ''f.example.com'']
   \<and> Namespace ex_bothIngress = ''kong'' \<and> Name ex_bothIngress = ''tcp-ingress-both''
   \<and> Labels (ex_kongEndpoint ''e.example.com'') ResourceLabelKey = Some ''tcpingress/kong/tcp-ingress-both''"
proof -
  have a: "hp_httpProxyInformer (ex_httpProxySource [ex_unsortedProxy])
       (hp_namespace (ex_httpProxySource [ex_unsortedProxy])) = Inr [ex_unsortedProxy]"
    and n: "Namespace ex_unsortedProxy = ''default''" "Name ex_unsortedProxy = ''proxy''"
    by (simp_all add: ex_httpProxySource_def ex_unsortedProxy_def)
  have b: "ir_ingressRouteInformer (ex_ingressRouteSource [ex_targetRoute])
       (ir_namespace (ex_ingressRouteSource [ex_targetRoute])) = Inr [ex_targetRoute]"
    and m: "Namespace ex_targetRoute = ''default''" "Name ex_targetRoute = ''with-target''"
    by (simp_all add: ex_ingressRouteSource_def ex_targetRoute_def)
  have c: "kong_tcpIngressInformer (ex_kongSource [ex_bothIngress])
       (kong_namespace (ex_kongSource [ex_bothIngress])) = Inr [ex_bothIngress]"
    and k: "Namespace ex_bothIngress = ''kong''" "Name ex_bothIngress = ''tcp-ingress-both''"
    by (simp_all add: ex_kongSource_def ex_bothIngress_def)
  from C7_resource_label [where hsc = "ex_httpProxySource [ex_unsortedProxy]" and hps = "[ex_unsortedProxy]"
      and H = exampleHelpers and eps = "[ex_sortedEndpoint]"] a ex_unsorted_eval
  have "\<forall>ep\<in>set [ex_sortedEndpoint]. \<exists>hp\<in>set [ex_unsortedProxy].
      Labels ep ResourceLabelKey = Some (''HTTPProxy/'' @ Namespace hp @ ''/'' @ Name hp)"
    by blast
  with n have one: "Labels ex_sortedEndpoint ResourceLabelKey = Some ''HTTPProxy/default/proxy''" by simp
  from C7_resource_label [where isc = "ex_ingressRouteSource [ex_targetRoute]" and rts = "[ex_targetRoute]"
      and H = exampleHelpers and eps = "[ex_routeEndpoint]"] b ex_target_route_eval
  have "\<forall>ep\<in>set [ex_routeEndpoint]. \<exists>rt\<in>set [ex_targetRoute].
      Labels ep ResourceLabelKey = Some (''ingressroute/'' @ Namespace rt @ ''/'' @ Name rt)"
    by blast
  with m have two: "Labels ex_routeEndpoint ResourceLabelKey = Some ''ingressroute/default/with-target''"
    by simp
  from C7_resource_label [where ksc = "ex_kongSource [ex_bothIngress]" and tis = "[ex_bothIngress]"
      and H = exampleHelpers and eps = "[ex_kongEndpoint ''d.example.com'',
        ex_kongEndpoint ''e.example.com'', ex_kongEndpoint ''f.example.com'']"] c ex_kong_both_eval
  have "\<forall>ep\<in>set [ex_kongEndpoint ''d.example.com'', ex_kongEndpoint ''e.example.com'',
        ex_kongEndpoint ''f.example.com'']. \<exists>ti\<in>set [ex_bothIngress].
      Labels ep ResourceLabelKey = Some (''tcpingress/'' @ Namespace ti @ ''/'' @ Name ti)"
    by blast
  with k have three: "Labels (ex_kongEndpoint ''e.example.com'') ResourceLabelKey
      = Some ''tcpingress/kong/tcp-ingress-both''"
    by simp
  from a n m k one two three ex_unsorted_eval ex_target_route_eval ex_kong_both_eval show ?thesis by blast
qed

text \<open>C7 fails for the Gloo source: the endpoint of the pass has no resource label.\<close>

theorem C7_counterexample:
  "gloo_Endpoints exampleHelpers ex_glooSource = Inr [ex_glooEndpoint]
   \<and> Labels ex_glooEndpoint ResourceLabelKey = None"
  using ex_gloo_pass by (simp add: ex_glooEndpoint_def)

section \<open>The order of the hostnames\<close>

lemma concat_rule_hosts:
  "concat (map (\<lambda>rule. if Host rule \<noteq> [] then f (Host rule) else []) rules) =
   concat (map f (filter (\<lambda>h. h \<noteq> []) (map Host rules)))"
  by (induction rules) auto

lemma hp_order:
  assumes E: "E = (\<lambda>hostname. endpointsForHostname H hostname (hp_targets H hp)
              (fst (getTTLFromAnnotations H (Annotations hp)))
              (fst (getProviderSpecificAnnotations H (Annotations hp)))
              (snd (getProviderSpecificAnnotations H (Annotations hp))))"
    and n: "native = (case hp_VirtualHost hp of None \<Rightarrow> [] | Some fqdn \<Rightarrow> if fqdn \<noteq> [] then [fqdn] else [])"
    and a: "aliases = (if hp_ignoreHostnameAnnotation hsc then []
                       else getHostnamesFromAnnotations H (Annotations hp))"
    and v: "hp_CurrentStatus hp = ''valid''"
  shows "hp_endpointsFromHTTPProxy H hsc hp = Inr (concat (map E (native @ aliases)))
     \<and> (\<forall>tmpl hostnames fromTemplate.
           hp_fqdnTemplate hsc = Some tmpl \<and> tmpl hp = Inr hostnames
           \<and> fromTemplate = map TrimSuffixDot (strings_Split CHR '','' (RemoveSpaces hostnames)) \<longrightarrow>
             (hp_combineFQDNAnnotation hsc \<longrightarrow>
                hp_withTemplate H hsc hp = Inr (concat (map E (native @ aliases @ fromTemplate))))
             \<and> (\<not> hp_combineFQDNAnnotation hsc \<and> concat (map E (native @ aliases)) = [] \<longrightarrow>
                hp_withTemplate H hsc hp = Inr (concat (map E fromTemplate))))"
proof -
  have one: "hp_endpointsFromHTTPProxy H hsc hp = Inr (concat (map E (native @ aliases)))"
    using v by (simp add: hp_endpointsFromHTTPProxy_def Let_def E n a split: option.splits)
  have t: "hp_endpointsFromTemplate H tmpl hp =
        Inr (concat (map E (map TrimSuffixDot (strings_Split CHR '','' (RemoveSpaces hostnames)))))"
    if "tmpl hp = Inr hostnames" for tmpl hostnames
    using that by (simp add: hp_endpointsFromTemplate_def Let_def E comp_def)
  from one t show ?thesis
    by (auto simp: hp_withTemplate_def)
qed

lemma ir_order:
  assumes T: "ir_targets H isc rt = Inr T"
    and E: "E = (\<lambda>hostname. endpointsForHostname H hostname T
              (fst (getTTLFromAnnotations H (Annotations rt)))
              (fst (getProviderSpecificAnnotations H (Annotations rt)))
              (snd (getProviderSpecificAnnotations H (Annotations rt))))"
    and n: "native = (case ir_VirtualHost rt of None \<Rightarrow> [] | Some fqdn \<Rightarrow> if fqdn \<noteq> [] then [fqdn] else [])"
    and a: "aliases = (if ir_ignoreHostnameAnnotation isc then []
                       else getHostnamesFromAnnotations H (Annotations rt))"
    and v: "ir_CurrentStatus rt = ''valid''"
  shows "endpointsFromIngressRoute H isc rt = Inr (concat (map E (native @ aliases)))
     \<and> (\<forall>tmpl hostnames fromTemplate.
           ir_fqdnTemplate isc = Some tmpl \<and> tmpl rt = Inr hostnames
           \<and> fromTemplate = map TrimSuffixDot (strings_Split CHR '','' (RemoveSpaces hostnames)) \<longrightarrow>
             (ir_combineFQDNAnnotation isc \<longrightarrow>
                ir_withTemplate H isc rt = Inr (concat (map E (native @ aliases @ fromTemplate))))
             \<and> (\<not> ir_combineFQDNAnnotation isc \<and> concat (map E (native @ aliases)) = [] \<longrightarrow>
                ir_withTemplate H isc rt = Inr (concat (map E fromTemplate))))"
proof -
  have one: "endpointsFromIngressRoute H isc rt = Inr (concat (map E (native @ aliases)))"
    using v T by (simp add: endpointsFromIngressRoute_def Let_def E n a split: option.splits)
  have t: "ir_endpointsFromTemplate H isc tmpl rt =
        Inr (concat (map E (map TrimSuffixDot (strings_Split CHR '','' (RemoveSpaces hostnames)))))"
    if "tmpl rt = Inr hostnames" for tmpl hostnames
    using that T by (simp add: ir_endpointsFromTemplate_def Let_def E comp_def)
  from one t show ?thesis
    by (auto simp: ir_withTemplate_def)
qed

lemma kong_order:
  assumes "snd (getTTLFromAnnotations H (Annotations ti)) = None"
    and "K = (\<lambda>hostname. endpointsForHostname H hostname targets
              (fst (getTTLFromAnnotations H (Annotations ti)))
              (fst (getProviderSpecificAnnotations H (Annotations ti)))
              (snd (getProviderSpecificAnnotations H (Annotations ti))))"
  shows "endpointsFromTCPIngress H ti targets =
         Inr (concat (map K (getHostnamesFromAnnotations H (Annotations ti)
                @ filter (\<lambda>h. h \<noteq> []) (map Host (ti_Rules ti)))))"
proof -
  have "concat (map (\<lambda>rule. if Host rule \<noteq> [] then K (Host rule) else []) (ti_Rules ti)) =
        concat (map K (filter (\<lambda>h. h \<noteq> []) (map Host (ti_Rules ti))))"
    by (rule concat_rule_hosts)
  moreover have "endpointsFromTCPIngress H ti targets =
      Inr (concat (map K (getHostnamesFromAnnotations H (Annotations ti)))
        @ concat (map (\<lambda>rule. if Host rule \<noteq> [] then K (Host rule) else []) (ti_Rules ti)))"
    using assms(1) unfolding assms(2) by (simp add: endpointsFromTCPIngress_def Let_def)
  ultimately show ?thesis by simp
qed

text \<open>
  C8, amended: the endpoints of an HTTPProxy and of an IngressRoute are those of the native
  hostname, then those of the hostnames of the annotation, then, when the template is used,
  those of its hostnames.  The endpoints of a Kong TCPIngress are those of the hostnames of
  the annotation, then those of the hosts of its rules.
\<close>

theorem C8_hostname_order:
  "(E = (\<lambda>hostname. endpointsForHostname H hostname (hp_targets H hp)
              (fst (getTTLFromAnnotations H (Annotations hp)))
              (fst (getProviderSpecificAnnotations H (Annotations hp)))
              (snd (getProviderSpecificAnnotations H (Annotations hp))))
    \<and> native = (case hp_VirtualHost hp of None \<Rightarrow> [] | Some fqdn \<Rightarrow> if fqdn \<noteq> [] then [fqdn] else [])
    \<and> aliases = (if hp_ignoreHostnameAnnotation hsc then []
                  else getHostnamesFromAnnotations H (Annotations hp))
    \<and> hp_CurrentStatus hp = ''valid'' \<longrightarrow>
      hp_endpointsFromHTTPProxy H hsc hp = Inr (concat (map E (native @ aliases)))
      \<and> (\<forall>tmpl hostnames fromTemplate.
           hp_fqdnTemplate hsc = Some tmpl \<and> tmpl hp = Inr hostnames
           \<and> fromTemplate = map TrimSuffixDot (strings_Split CHR '','' (RemoveSpaces hostnames)) \<longrightarrow>
             (hp_combineFQDNAnnotation hsc \<longrightarrow>
                hp_withTemplate H hsc hp = Inr (concat (map E (native @ aliases @ fromTemplate))))
             \<and> (\<not> hp_combineFQDNAnnotation hsc \<and> concat (map E (native @ aliases)) = [] \<longrightarrow>
                hp_withTemplate H hsc hp = Inr (concat (map E fromTemplate)))))
   \<and> (ir_targets H isc rt = Inr T
    \<and> E' = (\<lambda>hostname. endpointsForHostname H hostname T
              (fst (getTTLFromAnnotations H (Annotations rt)))
              (fst (getProviderSpecificAnnotations H (Annotations rt)))
              (snd (getProviderSpecificAnnotations H (Annotations rt))))
    \<and> native' = (case ir_VirtualHost rt of None \<Rightarrow> [] | Some fqdn \<Rightarrow> if fqdn \<noteq> [] then [fqdn] else [])
    \<and> aliases' = (if ir_ignoreHostnameAnnotation isc then []
                   else getHostnamesFromAnnotations H (Annotations rt))
    \<and> ir_CurrentStatus rt = ''valid'' \<longrightarrow>
      endpointsFromIngressRoute H isc rt = Inr (concat (map E' (native' @ aliases')))
      \<and> (\<forall>tmpl hostnames fromTemplate.
           ir_fqdnTemplate isc = Some tmpl \<and> tmpl rt = Inr hostnames
           \<and> fromTemplate = map TrimSuffixDot (strings_Split CHR '','' (RemoveSpaces hostnames)) \<longrightarrow>
             (ir_combineFQDNAnnotation isc \<longrightarrow>
                ir_withTemplate H isc rt = Inr (concat (map E' (native' @ aliases' @ fromTemplate))))
             \<and> (\<not> ir_combineFQDNAnnotation isc \<and> concat (map E' (native' @ aliases')) = [] \<longrightarrow>
                ir_withTemplate H isc rt = Inr (concat (map E' fromTemplate)))))
   \<and> (snd (getTTLFromAnnotations H (Annotations ti)) = None
    \<and> K = (\<lambda>hostname. endpointsForHostname H hostname targets
              (fst (getTTLFromAnnotations H (Annotations ti)))
              (fst (getProviderSpecificAnnotations H (Annotations ti)))
              (snd (getProviderSpecificAnnotations H (Annotations ti)))) \<longrightarrow>
      endpointsFromTCPIngress H ti targets =
        Inr (concat (map K (getHostnamesFromAnnotations H (Annotations ti)
               @ filter (\<lambda>h. h \<noteq> []) (map Host (ti_Rules ti))))))"
proof (intro conjI)
  show "E = (\<lambda>hostname. endpointsForHostname H hostname (hp_targets H hp)
              (fst (getTTLFromAnnotations H (Annotations hp)))
              (fst (getProviderSpecificAnnotations H (Annotations hp)))
              (snd (getProviderSpecificAnnotations H (Annotations hp))))
    \<and> native = (case hp_VirtualHost hp of None \<Rightarrow> [] | Some fqdn \<Rightarrow> if fqdn \<noteq> [] then [fqdn] else [])
    \<and> aliases = (if hp_ignoreHostnameAnnotation hsc then []
                  else getHostnamesFromAnnotations H (Annotations hp))
    \<and> hp_CurrentStatus hp = ''valid'' \<longrightarrow>
      hp_endpointsFromHTTPProxy H hsc hp = Inr (concat (map E (native @ aliases)))
      \<and> (\<forall>tmpl hostnames fromTemplate.
           hp_fqdnTemplate hsc = Some tmpl \<and> tmpl hp = Inr hostnames
           \<and> fromTemplate = map TrimSuffixDot (strings_Split CHR '','' (RemoveSpaces hostnames)) \<longrightarrow>
             (hp_combineFQDNAnnotation hsc \<longrightarrow>
                hp_withTemplate H hsc hp = Inr (concat (map E (native @ aliases @ fromTemplate))))
             \<and> (\<not> hp_combineFQDNAnnotation hsc \<and> concat (map E (native @ aliases)) = [] \<longrightarrow>
                hp_withTemplate H hsc hp = Inr (concat (map E fromTemplate))))"
    by (rule impI, elim conjE, rule hp_order)
next
  show "ir_targets H isc rt = Inr T
    \<and> E' = (\<lambda>hostname. endpointsForHostname H hostname T
              (fst (getTTLFromAnnotations H (Annotations rt)))
              (fst (getProviderSpecificAnnotations H (Annotations rt)))
              (snd (getProviderSpecificAnnotations H (Annotations rt))))
    \<and> native' = (case ir_VirtualHost rt of None \<Rightarrow> [] | Some fqdn \<Rightarrow> if fqdn \<noteq> [] then [fqdn] else [])
    \<and> aliases' = (if ir_ignoreHostnameAnnotation isc then []
                   else getHostnamesFromAnnotations H (Annotations rt))
    \<and> ir_CurrentStatus rt = ''valid'' \<longrightarrow>
      endpointsFromIngressRoute H isc rt = Inr (concat (map E' (native' @ aliases')))
      \<and> (\<forall>tmpl hostnames fromTemplate.
           ir_fqdnTemplate isc = Some tmpl \<and> tmpl rt = Inr hostnames
           \<and> fromTemplate = map TrimSuffixDot (strings_Split CHR '','' (RemoveSpaces hostnames)) \<longrightarrow>
             (ir_combineFQDNAnnotation isc \<longrightarrow>
                ir_withTemplate H isc rt = Inr (concat (map E' (native' @ aliases' @ fromTemplate))))
             \<and> (\<not> ir_combineFQDNAnnotation isc \<and> concat (map E' (native' @ aliases')) = [] \<longrightarrow>
                ir_withTemplate H isc rt = Inr (concat (map E' fromTemplate))))"
    by (rule impI, elim conjE, rule ir_order)
next
  show "snd (getTTLFromAnnotations H (Annotations ti)) = None
    \<and> K = (\<lambda>hostname. endpointsForHostname H hostname targets
              (fst (getTTLFromAnnotations H (Annotations ti)))
              (fst (getProviderSpecificAnnotations H (Annotations ti)))
              (snd (getProviderSpecificAnnotations H (Annotations ti)))) \<longrightarrow>
      endpointsFromTCPIngress H ti targets =
        Inr (concat (map K (getHostnamesFromAnnotations H (Annotations ti)
               @ filter (\<lambda>h. h \<noteq> []) (map Host (ti_Rules ti)))))"
    by (rule impI, elim conjE, rule kong_order)
qed

text \<open>
  C8 at an HTTPProxy with a native hostname, an alias and a combined template, and at a
  TCPIngress with a hostname annotation and two rules.
\<close>

theorem C8_witness:
  "hp_VirtualHost ex_aliasProxy = Some ''foo.bar''
   \<and> getHostnamesFromAnnotations exampleHelpers (Annotations ex_aliasProxy) = [''alias.example.com'']
   \<and> nameTemplate ex_aliasProxy = Inr ''proxy.ext-dns.test.com''
   \<and> hp_withTemplate exampleHelpers (ex_combineSource [ex_aliasProxy]) ex_aliasProxy
       = Inr [ex_hostEndpoint ''foo.bar'', ex_hostEndpoint ''alias.example.com'',
              ex_hostEndpoint ''proxy.ext-dns.test.com'']
   \<and> snd (getTTLFromAnnotations exampleHelpers (Annotations ex_bothIngress)) = None
   \<and> getHostnamesFromAnnotations exampleHelpers (Annotations ex_bothIngress) = [''d.example.com'']
   \<and> map Host (ti_Rules ex_bothIngress) = [''e.example.com'', ''f.example.com'']
   \<and> endpointsFromTCPIngress exampleHelpers ex_bothIngress [''lb.example.com'']
       = Inr [ex_cnameEndpoint ''d.example.com'', ex_cnameEndpoint ''e.example.com'',
              ex_cnameEndpoint ''f.example.com'']"
proof -
  let ?K = "\<lambda>hostname. endpointsForHostname exampleHelpers hostname [''lb.example.com'']
     (fst (getTTLFromAnnotations exampleHelpers (Annotations ex_bothIngress)))
     (fst (getProviderSpecificAnnotations exampleHelpers (Annotations ex_bothIngress)))
     (snd (getProviderSpecificAnnotations exampleHelpers (Annotations ex_bothIngress)))"
  have kt: "snd (getTTLFromAnnotations exampleHelpers (Annotations ex_bothIngress)) = None"
    and kh: "getHostnamesFromAnnotations exampleHelpers (Annotations ex_bothIngress) = [''d.example.com'']"
    and kr: "map Host (ti_Rules ex_bothIngress) = [''e.example.com'', ''f.example.com'']"
    by (simp_all add: helper_defs string_defs key_defs ex_bothIngress_def)
  have kb: "snd (getTTLFromAnnotations exampleHelpers (Annotations ex_bothIngress)) = None \<and> ?K = ?K"
    using kt by simp
  note kk = C8_hostname_order [where K = ?K and H = exampleHelpers and ti = ex_bothIngress
      and targets = "[''lb.example.com'']", THEN conjunct2, THEN conjunct2, THEN mp, OF kb]
  from kk have kong: "endpointsFromTCPIngress exampleHelpers ex_bothIngress [''lb.example.com'']
       = Inr [ex_cnameEndpoint ''d.example.com'', ex_cnameEndpoint ''e.example.com'',
              ex_cnameEndpoint ''f.example.com'']"
    by (simp add: kh kr ex_kong_rules_eval string_defs)
  let ?sc = "ex_combineSource [ex_aliasProxy]"
  let ?E = "\<lambda>hostname. endpointsForHostname exampleHelpers hostname (hp_targets exampleHelpers ex_aliasProxy)
              (fst (getTTLFromAnnotations exampleHelpers (Annotations ex_aliasProxy)))
              (fst (getProviderSpecificAnnotations exampleHelpers (Annotations ex_aliasProxy)))
              (snd (getProviderSpecificAnnotations exampleHelpers (Annotations ex_aliasProxy)))"
  have v: "hp_VirtualHost ex_aliasProxy = Some ''foo.bar''"
    and s: "hp_CurrentStatus ex_aliasProxy = ''valid''"
    and i: "\<not> hp_ignoreHostnameAnnotation ?sc"
    and f: "hp_fqdnTemplate ?sc = Some nameTemplate"
    and c: "hp_combineFQDNAnnotation ?sc"
    and n: "nameTemplate ex_aliasProxy = Inr ''proxy.ext-dns.test.com''"
    by (simp_all add: ex_aliasProxy_def ex_combineSource_def nameTemplate_def)
  have g: "getHostnamesFromAnnotations exampleHelpers (Annotations ex_aliasProxy) = [''alias.example.com'']"
    by (simp add: helper_defs string_defs key_defs ex_aliasProxy_def)
  have t: "map TrimSuffixDot (strings_Split CHR '','' (RemoveSpaces ''proxy.ext-dns.test.com''))
      = [''proxy.ext-dns.test.com'']"
    by (simp add: string_defs)
  have e: "?E h = [ex_hostEndpoint (TrimSuffixDot h)]" for h
    by (simp add: hp_targets_def helper_defs key_defs ex_aliasProxy_def ex_hostEndpoint_def)
  have b: "?E = ?E
      \<and> [''foo.bar''] = (case hp_VirtualHost ex_aliasProxy of None \<Rightarrow> []
            | Some fqdn \<Rightarrow> if fqdn \<noteq> [] then [fqdn] else [])
      \<and> [''alias.example.com''] = (if hp_ignoreHostnameAnnotation ?sc then []
            else getHostnamesFromAnnotations exampleHelpers (Annotations ex_aliasProxy))
      \<and> hp_CurrentStatus ex_aliasProxy = ''valid''"
    using v s i g by simp
  have d: "hp_fqdnTemplate ?sc = Some nameTemplate \<and> nameTemplate ex_aliasProxy = Inr ''proxy.ext-dns.test.com''
      \<and> [''proxy.ext-dns.test.com'']
          = map TrimSuffixDot (strings_Split CHR '','' (RemoveSpaces ''proxy.ext-dns.test.com''))"
    using f n t by simp
  note k = C8_hostname_order [where E = ?E and H = exampleHelpers and hp = ex_aliasProxy and hsc = ?sc
      and native = "[''foo.bar'']" and aliases = "[''alias.example.com'']", THEN conjunct1, THEN mp, OF b,
      THEN conjunct2, THEN spec, THEN spec, THEN spec, THEN mp, OF d, THEN conjunct1, THEN mp, OF c]
  from k
  have "hp_withTemplate exampleHelpers ?sc ex_aliasProxy =
      Inr (concat (map ?E ([''foo.bar''] @ [''alias.example.com''] @ [''proxy.ext-dns.test.com''])))" .
  then have "hp_withTemplate exampleHelpers ?sc ex_aliasProxy
       = Inr [ex_hostEndpoint ''foo.bar'', ex_hostEndpoint ''alias.example.com'',
              ex_hostEndpoint ''proxy.ext-dns.test.com'']"
    by (simp add: e string_defs)
  with v g n kt kh kr kong show ?thesis by blast
qed

text \<open>
  C8 fails for the Kong source: the hostname of the annotation comes before the hosts of
  the rules.
\<close>

theorem C8_counterexample:
  "map Host (ti_Rules ex_bothIngress) = [''e.example.com'', ''f.example.com'']
   \<and> getHostnamesFromAnnotations exampleHelpers (Annotations ex_bothIngress) = [''d.example.com'']
   \<and> kong_Endpoints exampleHelpers (ex_kongSource [ex_bothIngress]) =
       Inr [ex_kongEndpoint ''d.example.com'', ex_kongEndpoint ''e.example.com'',
            ex_kongEndpoint ''f.example.com'']
   \<and> map DNSName [ex_kongEndpoint ''d.example.com'', ex_kongEndpoint ''e.example.com'',
            ex_kongEndpoint ''f.example.com'']
       = [''d.example.com'', ''e.example.com'', ''f.example.com'']"
  using ex_kong_both_eval
  by (simp add: ex_bothIngress_def ex_kongEndpoint_def helper_defs string_defs key_defs)

section \<open>Resources that are not valid\<close>

lemma hp_invalid_skipped:
  "hp_CurrentStatus hp \<noteq> ''valid'' \<Longrightarrow> hp_resourceEndpoints H sc hp = Inr []"
  by (simp add: hp_resourceEndpoints_def)

lemma ir_invalid_skipped:
  "ir_CurrentStatus rt \<noteq> ''valid'' \<Longrightarrow> ir_resourceEndpoints H sc rt = Inr []"
  by (simp add: ir_resourceEndpoints_def)

lemma hp_endpointsFromHTTPProxy_informer:
  "hp_endpointsFromHTTPProxy H (sc\<lparr>hp_httpProxyInformer := f\<rparr>) = hp_endpointsFromHTTPProxy H sc"
  by (rule ext) (simp add: hp_endpointsFromHTTPProxy_def)

lemma hp_withTemplate_informer:
  "hp_withTemplate H (sc\<lparr>hp_httpProxyInformer := f\<rparr>) = hp_withTemplate H sc"
  by (rule ext)
    (simp add: hp_withTemplate_def hp_endpointsFromHTTPProxy_informer split: sum.splits option.splits)

lemma hp_resourceEndpoints_informer:
  "hp_resourceEndpoints H (sc\<lparr>hp_httpProxyInformer := f\<rparr>) = hp_resourceEndpoints H sc"
  by (rule ext) (simp add: hp_resourceEndpoints_def hp_withTemplate_informer split: sum.splits)

lemma targetsFromContourLoadBalancer_informer:
  "targetsFromContourLoadBalancer (sc\<lparr>ir_ingressRouteInformer := f\<rparr>) = targetsFromContourLoadBalancer sc"
  by (simp add: targetsFromContourLoadBalancer_def)

lemma ir_targets_informer:
  "ir_targets H (sc\<lparr>ir_ingressRouteInformer := f\<rparr>) = ir_targets H sc"
  by (rule ext) (simp add: ir_targets_def targetsFromContourLoadBalancer_informer Let_def)

lemma endpointsFromIngressRoute_informer:
  "endpointsFromIngressRoute H (sc\<lparr>ir_ingressRouteInformer := f\<rparr>) = endpointsFromIngressRoute H sc"
  by (rule ext)
    (simp add: endpointsFromIngressRoute_def ir_targets_informer Let_def split: sum.splits option.splits)

lemma ir_endpointsFromTemplate_informer:
  "ir_endpointsFromTemplate H (sc\<lparr>ir_ingressRouteInformer := f\<rparr>) = ir_endpointsFromTemplate H sc"
  by (rule ext, rule ext)
    (simp add: ir_endpointsFromTemplate_def ir_targets_informer Let_def split: sum.splits)

lemma ir_withTemplate_informer:
  "ir_withTemplate H (sc\<lparr>ir_ingressRouteInformer := f\<rparr>) = ir_withTemplate H sc"
  by (rule ext)
    (simp add: ir_withTemplate_def endpointsFromIngressRoute_informer ir_endpointsFromTemplate_informer
       split: sum.splits option.splits)

lemma ir_resourceEndpoints_informer:
  "ir_resourceEndpoints H (sc\<lparr>ir_ingressRouteInformer := f\<rparr>) = ir_resourceEndpoints H sc"
  by (rule ext) (simp add: ir_resourceEndpoints_def ir_withTemplate_informer split: sum.splits)

text \<open>
  C9, amended: an HTTPProxy or an IngressRoute whose status is not \<open>valid\<close> adds no endpoint
  to the pass, and the pass returns what it returns on the valid resources alone.  The Gloo
  source does not read the status of a proxy.
\<close>

theorem C9_invalid_resources_skipped:
  "(hp_CurrentStatus hp \<noteq> ''valid'' \<longrightarrow>
      hp_endpointsFromHTTPProxy H hsc hp = Inr [] \<and> hp_resourceEndpoints H hsc hp = Inr [])
   \<and> (hp_httpProxyInformer hsc (hp_namespace hsc) = Inr hps \<longrightarrow>
        hp_Endpoints H hsc =
        hp_Endpoints H (hsc\<lparr>hp_httpProxyInformer :=
          \<lambda>ns. Inr (filter (\<lambda>hp. hp_CurrentStatus hp = ''valid'') hps)\<rparr>))
   \<and> (ir_CurrentStatus rt \<noteq> ''valid'' \<longrightarrow>
      endpointsFromIngressRoute H isc rt = Inr [] \<and> ir_resourceEndpoints H isc rt = Inr [])
   \<and> (ir_ingressRouteInformer isc (ir_namespace isc) = Inr rts \<longrightarrow>
        ir_Endpoints H isc =
        ir_Endpoints H (isc\<lparr>ir_ingressRouteInformer :=
          \<lambda>ns. Inr (filter (\<lambda>rt. ir_CurrentStatus rt = ''valid'') rts)\<rparr>))
   \<and> gloo_resourceEndpoints H gs (p\<lparr>Status_State := state\<rparr>) = gloo_resourceEndpoints H gs p"
proof -
  have a: "hp_CurrentStatus hp \<noteq> ''valid'' \<longrightarrow>
      hp_endpointsFromHTTPProxy H hsc hp = Inr [] \<and> hp_resourceEndpoints H hsc hp = Inr []"
    by (simp add: hp_invalid_skipped hp_endpointsFromHTTPProxy_def)
  have b: "hp_httpProxyInformer hsc (hp_namespace hsc) = Inr hps \<longrightarrow>
        hp_Endpoints H hsc =
        hp_Endpoints H (hsc\<lparr>hp_httpProxyInformer :=
          \<lambda>ns. Inr (filter (\<lambda>hp. hp_CurrentStatus hp = ''valid'') hps)\<rparr>)"
  proof
    assume l: "hp_httpProxyInformer hsc (hp_namespace hsc) = Inr hps"
    have "collect (hp_resourceEndpoints H hsc) hps [] =
          collect (hp_resourceEndpoints H hsc) (filter (\<lambda>hp. hp_CurrentStatus hp = ''valid'') hps) []"
      by (rule collect_filter) (simp add: hp_invalid_skipped)
    with l show "hp_Endpoints H hsc =
        hp_Endpoints H (hsc\<lparr>hp_httpProxyInformer :=
          \<lambda>ns. Inr (filter (\<lambda>hp. hp_CurrentStatus hp = ''valid'') hps)\<rparr>)"
      by (simp add: hp_Endpoints_def hp_resourceEndpoints_informer)
  qed
  have c: "ir_CurrentStatus rt \<noteq> ''valid'' \<longrightarrow>
      endpointsFromIngressRoute H isc rt = Inr [] \<and> ir_resourceEndpoints H isc rt = Inr []"
    by (simp add: ir_invalid_skipped endpointsFromIngressRoute_def)
  have d: "ir_ingressRouteInformer isc (ir_namespace isc) = Inr rts \<longrightarrow>
        ir_Endpoints H isc =
        ir_Endpoints H (isc\<lparr>ir_ingressRouteInformer :=
          \<lambda>ns. Inr (filter (\<lambda>rt. ir_CurrentStatus rt = ''valid'') rts)\<rparr>)"
  proof
    assume l: "ir_ingressRouteInformer isc (ir_namespace isc) = Inr rts"
    have "collect (ir_resourceEndpoints H isc) rts [] =
          collect (ir_resourceEndpoints H isc) (filter (\<lambda>rt. ir_CurrentStatus rt = ''valid'') rts) []"
      by (rule collect_filter) (simp add: ir_invalid_skipped)
    with l show "ir_Endpoints H isc =
        ir_Endpoints H (isc\<lparr>ir_ingressRouteInformer :=
          \<lambda>ns. Inr (filter (\<lambda>rt. ir_CurrentStatus rt = ''valid'') rts)\<rparr>)"
      by (simp add: ir_Endpoints_def ir_resourceEndpoints_informer)
  qed
  have e: "gloo_resourceEndpoints H gs (p\<lparr>Status_State := state\<rparr>) = gloo_resourceEndpoints H gs p"
    by (simp add: gloo_resourceEndpoints_def endpointsFromProxy_def split: sum.splits)
  from a b c d e show ?thesis by blast
qed

text \<open>
  C9 at a snapshot of one invalid and one valid HTTPProxy, and at a snapshot of one invalid
  and one valid IngressRoute.
\<close>

theorem C9_witness:
  "hp_CurrentStatus ex_invalidProxy = ''invalid''
   \<and> hp_resourceEndpoints exampleHelpers (ex_httpProxySource [ex_invalidProxy, ex_httpProxy]) ex_invalidProxy
       = Inr []
   \<and> hp_Endpoints exampleHelpers (ex_httpProxySource [ex_invalidProxy, ex_httpProxy])
       = Inr [ex_validEndpoint]
   \<and> ir_CurrentStatus ex_invalidRoute = ''invalid''
   \<and> ir_resourceEndpoints exampleHelpers (ex_ingressRouteSource [ex_invalidRoute, ex_targetRoute]) ex_invalidRoute
       = Inr []
   \<and> ir_Endpoints exampleHelpers (ex_ingressRouteSource [ex_invalidRoute, ex_targetRoute])
       = Inr [ex_routeEndpoint]"
proof -
  have s: "hp_CurrentStatus ex_invalidProxy = ''invalid''" "hp_CurrentStatus ex_httpProxy = ''valid''"
    by (simp_all add: ex_invalidProxy_def ex_httpProxy_def)
  then have n: "hp_CurrentStatus ex_invalidProxy \<noteq> ''valid''" by simp
  have l: "hp_httpProxyInformer (ex_httpProxySource [ex_invalidProxy, ex_httpProxy])
        (hp_namespace (ex_httpProxySource [ex_invalidProxy, ex_httpProxy]))
      = Inr [ex_invalidProxy, ex_httpProxy]"
    by (simp add: ex_httpProxySource_def)
  have u: "(ex_httpProxySource [ex_invalidProxy, ex_httpProxy])\<lparr>hp_httpProxyInformer :=
          \<lambda>ns. Inr (filter (\<lambda>hp. hp_CurrentStatus hp = ''valid'') [ex_invalidProxy, ex_httpProxy])\<rparr>
        = ex_httpProxySource [ex_httpProxy]"
    using s by (simp add: ex_httpProxySource_def)
  have s': "ir_CurrentStatus ex_invalidRoute = ''invalid''" "ir_CurrentStatus ex_targetRoute = ''valid''"
    by (simp_all add: ex_invalidRoute_def ex_targetRoute_def)
  then have n': "ir_CurrentStatus ex_invalidRoute \<noteq> ''valid''" by simp
  have l': "ir_ingressRouteInformer (ex_ingressRouteSource [ex_invalidRoute, ex_targetRoute])
        (ir_namespace (ex_ingressRouteSource [ex_invalidRoute, ex_targetRoute]))
      = Inr [ex_invalidRoute, ex_targetRoute]"
    by (simp add: ex_ingressRouteSource_def)
  have u': "(ex_ingressRouteSource [ex_invalidRoute, ex_targetRoute])\<lparr>ir_ingressRouteInformer :=
          \<lambda>ns. Inr (filter (\<lambda>rt. ir_CurrentStatus rt = ''valid'') [ex_invalidRoute, ex_targetRoute])\<rparr>
        = ex_ingressRouteSource [ex_targetRoute]"
    using s' by (simp add: ex_ingressRouteSource_def)
  note c = C9_invalid_resources_skipped [where hp = ex_invalidProxy and H = exampleHelpers
      and hsc = "ex_httpProxySource [ex_invalidProxy, ex_httpProxy]" and hps = "[ex_invalidProxy, ex_httpProxy]"
      and rt = ex_invalidRoute and isc = "ex_ingressRouteSource [ex_invalidRoute, ex_targetRoute]"
      and rts = "[ex_invalidRoute, ex_targetRoute]"]
  from c n have a: "hp_resourceEndpoints exampleHelpers
      (ex_httpProxySource [ex_invalidProxy, ex_httpProxy]) ex_invalidProxy = Inr []"
    by blast
  from c l have "hp_Endpoints exampleHelpers (ex_httpProxySource [ex_invalidProxy, ex_httpProxy]) =
      hp_Endpoints exampleHelpers ((ex_httpProxySource [ex_invalidProxy, ex_httpProxy])\<lparr>hp_httpProxyInformer :=
          \<lambda>ns. Inr (filter (\<lambda>hp. hp_CurrentStatus hp = ''valid'') [ex_invalidProxy, ex_httpProxy])\<rparr>)"
    by blast
  with u ex_valid_eval have b: "hp_Endpoints exampleHelpers (ex_httpProxySource [ex_invalidProxy, ex_httpProxy])
       = Inr [ex_validEndpoint]" by simp
  from c n' have a': "ir_resourceEndpoints exampleHelpers
      (ex_ingressRouteSource [ex_invalidRoute, ex_targetRoute]) ex_invalidRoute = Inr []"
    by blast
  from c l' have "ir_Endpoints exampleHelpers (ex_ingressRouteSource [ex_invalidRoute, ex_targetRoute]) =
      ir_Endpoints exampleHelpers ((ex_ingressRouteSource [ex_invalidRoute, ex_targetRoute])\<lparr>ir_ingressRouteInformer :=
          \<lambda>ns. Inr (filter (\<lambda>rt. ir_CurrentStatus rt = ''valid'') [ex_invalidRoute, ex_targetRoute])\<rparr>)"
    by blast
  with u' ex_target_route_eval
  have b': "ir_Endpoints exampleHelpers (ex_ingressRouteSource [ex_invalidRoute, ex_targetRoute])
       = Inr [ex_routeEndpoint]" by simp
  from s(1) s'(1) a b a' b' show ?thesis by blast
qed

text \<open>C9 fails for the Gloo source: a proxy in state \<open>Rejected\<close> yields an endpoint.\<close>

theorem C9_counterexample:
  "Status_State ex_glooProxy = ''Rejected''
   \<and> gloo_proxyInformer ex_glooSource (gloo_namespace ex_glooSource) = Inr [ex_glooProxy]
   \<and> gloo_Endpoints exampleHelpers ex_glooSource = Inr [ex_glooEndpoint]"
  using ex_gloo_pass by (simp add: ex_glooProxy_def ex_glooSource_def)

section \<open>Hosts without the service annotation\<close>

text \<open>
  C10: an Ambassador Host without the annotation \<open>external-dns.ambassador-service\<close> adds
  no endpoint and no request for a service, and is no error: the pass returns, with the
  same requests, what it returns on the snapshot without that Host.
\<close>

theorem C10_host_without_annotation_ignored:
  "Annotations host ambHostAnnotation = None \<Longrightarrow>
     amb_resourceEndpoints H sc host = (Inr [], [])
     \<and> (amb_hostInformer sc (amb_namespace sc) = Inr (hs1 @ host # hs2) \<longrightarrow>
          amb_Endpoints H sc = amb_Endpoints H (sc\<lparr>amb_hostInformer := \<lambda>ns. Inr (hs1 @ hs2)\<rparr>))"
proof -
  assume a: "Annotations host ambHostAnnotation = None"
  have b: "amb_resourceEndpoints H sc host = (Inr [], [])"
    using a by (simp add: amb_resourceEndpoints_def)
  have t: "targetsFromAmbassadorLoadBalancer (sc\<lparr>amb_hostInformer := f\<rparr>) =
           targetsFromAmbassadorLoadBalancer sc" for f
    by (rule ext) (simp add: targetsFromAmbassadorLoadBalancer_def split: sum.splits prod.splits)
  have c: "amb_resourceEndpoints H (sc\<lparr>amb_hostInformer := f\<rparr>) = amb_resourceEndpoints H sc" for f
    by (rule ext) (simp add: amb_resourceEndpoints_def t split: option.splits)
  have d: "collectCalls (amb_resourceEndpoints H sc) (hs1 @ host # hs2) [] [] =
           collectCalls (amb_resourceEndpoints H sc) (hs1 @ hs2) [] []"
    using b by (rule collectCalls_skip)
  show ?thesis using b c d by (simp add: amb_Endpoints_def)
qed

text \<open>C10 at a snapshot of a Host without the annotation and a Host with a service.\<close>

theorem C10_witness:
  "Annotations ex_plainHost ambHostAnnotation = None
   \<and> amb_resourceEndpoints exampleHelpers (ex_ambassadorSource [ex_plainHost, ex_servedHost]) ex_plainHost
       = (Inr [], [])
   \<and> amb_Endpoints exampleHelpers (ex_ambassadorSource [ex_plainHost, ex_servedHost])
       = (Inr [ex_servedEndpoint], [(''ns1'', ''svc2'')])"
proof -
  have n: "Annotations ex_plainHost ambHostAnnotation = None"
    by (simp add: ex_plainHost_def)
  have l: "amb_hostInformer (ex_ambassadorSource [ex_plainHost, ex_servedHost])
        (amb_namespace (ex_ambassadorSource [ex_plainHost, ex_servedHost]))
      = Inr ([] @ ex_plainHost # [ex_servedHost])"
    by (simp add: ex_ambassadorSource_def)
  have u: "(ex_ambassadorSource [ex_plainHost, ex_servedHost])\<lparr>amb_hostInformer :=
          \<lambda>ns. Inr ([] @ [ex_servedHost])\<rparr> = ex_ambassadorSource [ex_servedHost]"
    by (simp add: ex_ambassadorSource_def)
  note c = C10_host_without_annotation_ignored [OF n, of exampleHelpers
      "ex_ambassadorSource [ex_plainHost, ex_servedHost]" "[]" "[ex_servedHost]"]
  from c have a: "amb_resourceEndpoints exampleHelpers
      (ex_ambassadorSource [ex_plainHost, ex_servedHost]) ex_plainHost = (Inr [], [])"
    by blast
  from c l have "amb_Endpoints exampleHelpers (ex_ambassadorSource [ex_plainHost, ex_servedHost]) =
      amb_Endpoints exampleHelpers ((ex_ambassadorSource [ex_plainHost, ex_servedHost])\<lparr>amb_hostInformer :=
          \<lambda>ns. Inr ([] @ [ex_servedHost])\<rparr>)"
    by blast
  with u ex_served_eval have "amb_Endpoints exampleHelpers (ex_ambassadorSource [ex_plainHost, ex_servedHost])
       = (Inr [ex_servedEndpoint], [(''ns1'', ''svc2'')])" by simp
  with n a show ?thesis by blast
qed

end
